theory Spec2Isabelle
  imports Complex_Main "HOL-Library.Multiset"
begin

section \<open>Road follower training notebook: data model\<close>

text \<open>
  The notebook \<^verbatim>\<open>road_following/train_model.ipynb\<close> is embedded cell by cell.
  Python floats are modelled as \<^typ>\<open>real\<close>, with two exceptions: the targets that an access
  returns are rounded to single precision, and a loss of the training loop may be NaN.
  Python integers are \<^typ>\<open>int\<close> or, for lengths and indices that cannot be negative,
  \<^typ>\<open>nat\<close>. File names are byte strings. Every exception the notebook can raise is a
  value of \<open>error\<close>; a function that can raise returns \<open>error + 'a\<close>.
\<close>

datatype error = ValueError | IndexError | OSError | RuntimeError | ZeroDivisionError

subsection \<open>Strings: slicing, \<^verbatim>\<open>int()\<close>, \<^verbatim>\<open>os.path\<close>\<close>

text \<open>\<^verbatim>\<open>s[i:j]\<close> for \<open>0 \<le> i \<le> j\<close>: shorter strings give shorter slices, never an error.\<close>

definition slice :: "nat \<Rightarrow> nat \<Rightarrow> 'a list \<Rightarrow> 'a list" where
  "slice i j s = take (j - i) (drop i s)"

definition is_digit :: "char \<Rightarrow> bool" where
  "is_digit c = (c \<in> set ''0123456789'')"

definition digit_value :: "char \<Rightarrow> int" where
  "digit_value c = int (of_char c) - 48"

text \<open>
  The white space that \<^verbatim>\<open>int()\<close> strips from both ends of an ASCII argument: space, tab,
  line feed, vertical tab, form feed, carriage return.
\<close>

definition is_space :: "char \<Rightarrow> bool" where
  "is_space c = (c \<in> set [CHR '' '', CHR 0x09, CHR 0x0A, CHR 0x0B, CHR 0x0C, CHR 0x0D])"

definition strip :: "string \<Rightarrow> string" where
  "strip s = rev (dropWhile is_space (rev (dropWhile is_space s)))"

text \<open>
  The digit part of a decimal literal: digits, with single underscores allowed between two
  digits (Python 3.6). The accumulator is the value read so far.
\<close>

fun digits_value :: "int \<Rightarrow> string \<Rightarrow> error + int" where
  "digits_value acc [] = Inl ValueError"
| "digits_value acc [c] =
     (if is_digit c then Inr (10 * acc + digit_value c) else Inl ValueError)"
| "digits_value acc (c # d # cs) =
     (if \<not> is_digit c then Inl ValueError
      else if d = CHR ''_'' then digits_value (10 * acc + digit_value c) cs
      else digits_value (10 * acc + digit_value c) (d # cs))"

text \<open>\<^verbatim>\<open>int(s)\<close> on a string: optional white space, optional sign, digits; else ValueError.\<close>

definition py_int :: "string \<Rightarrow> error + int" where
  "py_int s =
     (case strip s of
        [] \<Rightarrow> Inl ValueError
      | c # cs \<Rightarrow>
          if c = CHR ''-'' then map_sum id uminus (digits_value 0 cs)
          else if c = CHR ''+'' then digits_value 0 cs
          else digits_value 0 (c # cs))"

text \<open>\<^verbatim>\<open>os.path.basename\<close>: what follows the last slash.\<close>

definition basename :: "string \<Rightarrow> string" where
  "basename p = rev (takeWhile (\<lambda>c. c \<noteq> CHR ''/'') (rev p))"

subsection \<open>Decoding the targets from a file name\<close>

text \<open>
  \<^verbatim>\<open>def get_x(path): return (float(int(path[3:6])) - 50.0) / 50.0\<close>
  \<^verbatim>\<open>def get_y(path): return (float(int(path[7:10])) - 50.0) / 50.0\<close>
\<close>

definition get_x :: "string \<Rightarrow> error + real" where
  "get_x path =
     (case py_int (slice 3 6 path) of
        Inl e \<Rightarrow> Inl e
      | Inr d \<Rightarrow> Inr ((real_of_int d - 50.0) / 50.0))"

definition get_y :: "string \<Rightarrow> error + real" where
  "get_y path =
     (case py_int (slice 7 10 path) of
        Inl e \<Rightarrow> Inl e
      | Inr d \<Rightarrow> Inr ((real_of_int d - 50.0) / 50.0))"

subsection \<open>Directory listing: \<^verbatim>\<open>glob.glob(os.path.join(directory, '*.jpg'))\<close>\<close>

text \<open>
  The file system is what the library reads: \<open>listdir d\<close> gives the entry names of
  directory \<open>d\<close> in the order the operating system returns them (\<open>None\<close> when \<open>d\<close> cannot be
  listed), and \<open>expand_dirs p\<close> gives the directories that a directory part \<open>p\<close> containing
  wildcards stands for (the recursion of \<^verbatim>\<open>glob\<close> on the directory part, not followed here).
\<close>

record filesystem =
  listdir :: "string \<Rightarrow> string list option"
  expand_dirs :: "string \<Rightarrow> string list"

definition starts_with :: "string \<Rightarrow> string \<Rightarrow> bool" where
  "starts_with pre s = (take (length pre) s = pre)"

definition ends_with :: "string \<Rightarrow> string \<Rightarrow> bool" where
  "ends_with suf s = (length suf \<le> length s \<and> drop (length s - length suf) s = suf)"

definition os_path_join :: "string \<Rightarrow> string \<Rightarrow> string" where
  "os_path_join a b =
     (if starts_with ''/'' b then b
      else if a = [] \<or> ends_with ''/'' a then a @ b
      else a @ ''/'' @ b)"

definition rstrip_slash :: "string \<Rightarrow> string" where
  "rstrip_slash s = rev (dropWhile (\<lambda>c. c = CHR ''/'') (rev s))"

definition os_path_split :: "string \<Rightarrow> string \<times> string" where
  "os_path_split p =
     (let tail = basename p;
          head = take (length p - length tail) p
      in (if head \<noteq> [] \<and> \<not> list_all (\<lambda>c. c = CHR ''/'') head then rstrip_slash head else head,
          tail))"

definition has_magic :: "string \<Rightarrow> bool" where
  "has_magic s = list_ex (\<lambda>c. c \<in> set ''*?['') s"

definition ishidden :: "string \<Rightarrow> bool" where
  "ishidden name = starts_with ''.'' name"

text \<open>\<^verbatim>\<open>fnmatch\<close> against the one pattern the notebook uses, \<^verbatim>\<open>*.jpg\<close> (case matters on POSIX).\<close>

definition fnmatch_jpg :: "string \<Rightarrow> bool" where
  "fnmatch_jpg name = ends_with ''.jpg'' name"

text \<open>
  \<^verbatim>\<open>glob._glob1(dirname, '*.jpg')\<close>: the entries of the directory (of the current directory
  when \<open>dirname\<close> is empty, none when it cannot be listed), hidden names dropped because the
  pattern does not start with a dot, filtered by the pattern.
\<close>

definition glob1 :: "filesystem \<Rightarrow> string \<Rightarrow> string list" where
  "glob1 fs dirname =
     (case listdir fs (if dirname = [] then ''.'' else dirname) of
        None \<Rightarrow> []
      | Some names \<Rightarrow> filter fnmatch_jpg (filter (\<lambda>x. \<not> ishidden x) names))"

definition glob_jpg :: "filesystem \<Rightarrow> string \<Rightarrow> string list" where
  "glob_jpg fs directory =
     (let pathname = os_path_join directory ''*.jpg'';
          dirname = fst (os_path_split pathname);
          dirs = (if dirname \<noteq> pathname \<and> has_magic dirname then expand_dirs fs dirname
                  else [dirname])
      in if dirname = [] then glob1 fs dirname
         else concat (map (\<lambda>d. map (os_path_join d) (glob1 fs d)) dirs))"

subsection \<open>Images and tensors\<close>

text \<open>
  A decoded picture as PIL holds it: a mode, which fixes the number of bands, and the pixels
  row by row, each pixel a list of band values in 0..255. The modes are the two that the
  whole of \<^verbatim>\<open>__getitem__\<close> is followed for: grey (\<^verbatim>\<open>L\<close>, one band) and colour (\<^verbatim>\<open>RGB\<close>,
  three bands). A tensor is a nested list, channel first: channels, rows, columns.
\<close>

datatype mode = L | RGB

fun nbands :: "mode \<Rightarrow> nat" where
  "nbands L = 1"
| "nbands RGB = 3"

type_synonym pixel = "nat list"

record pil_image =
  mode :: mode
  rows :: "pixel list list"

type_synonym tensor = "real list list list"

text \<open>A tensor has shape \<open>(c, h, w)\<close>: \<open>c\<close> planes of \<open>h\<close> rows of \<open>w\<close> values.\<close>

definition has_shape :: "tensor \<Rightarrow> nat \<times> nat \<times> nat \<Rightarrow> bool" where
  "has_shape t s =
     (case s of (c, h, w) \<Rightarrow>
        length t = c \<and> list_all (\<lambda>plane. length plane = h \<and> list_all (\<lambda>row. length row = w) plane) t)"

text \<open>\<^verbatim>\<open>transforms.functional.hflip\<close>: every row reversed.\<close>

definition hflip :: "pil_image \<Rightarrow> pil_image" where
  "hflip img = img\<lparr>rows := map rev (rows img)\<rparr>"

text \<open>
  \<^verbatim>\<open>PIL.Image.open\<close> reads the header of the file and leaves the pixels for later: the file
  behind a path cannot be opened (the call raises), or opens but does not decode (the first
  transformation that reads the pixels raises), or holds a picture.
\<close>

datatype image_file = Unreadable | Undecodable | Decoded pil_image

text \<open>
  What one access to the dataset reads from outside: the file behind a path, the number
  drawn by \<^verbatim>\<open>np.random.rand(1)\<close>, the colour map that \<^verbatim>\<open>ColorJitter\<close> draws for this picture
  (it works pixel by pixel, given its four ranges and the picture), and the interpolation of
  \<^verbatim>\<open>resize\<close>, which gives the pixel at row \<open>i\<close>, column \<open>j\<close> of the resized picture.
\<close>

record access =
  open_image :: "string \<Rightarrow> image_file"
  rand :: real
  jitter_pixel :: "real \<times> real \<times> real \<times> real \<Rightarrow> pil_image \<Rightarrow> pixel \<Rightarrow> pixel"
  interpolate :: "pil_image \<Rightarrow> nat \<times> nat \<Rightarrow> nat \<Rightarrow> nat \<Rightarrow> pixel"

definition apply_color_jitter ::
  "access \<Rightarrow> real \<times> real \<times> real \<times> real \<Rightarrow> pil_image \<Rightarrow> pil_image" where
  "apply_color_jitter a cfg img = img\<lparr>rows := map (map (jitter_pixel a cfg img)) (rows img)\<rparr>"

text \<open>\<^verbatim>\<open>transforms.functional.resize(image, (h, w))\<close>: same mode, \<open>h\<close> rows of \<open>w\<close> pixels.\<close>

definition resize :: "access \<Rightarrow> pil_image \<Rightarrow> nat \<times> nat \<Rightarrow> pil_image" where
  "resize a img sz =
     (case sz of (h, w) \<Rightarrow>
        img\<lparr>rows := map (\<lambda>i. map (\<lambda>j. interpolate a img (h, w) i j) [0..<w]) [0..<h]\<rparr>)"

text \<open>\<^verbatim>\<open>to_tensor\<close> on an 8-bit picture: one plane per band, values scaled to [0, 1].\<close>

definition to_tensor :: "pil_image \<Rightarrow> tensor" where
  "to_tensor img =
     map (\<lambda>c. map (map (\<lambda>p. real (p ! c) / 255)) (rows img)) [0..<nbands (mode img)]"

text \<open>
  \<^verbatim>\<open>normalize(tensor, mean, std)\<close> (torchvision 0.2.2 and later) subtracts and divides in
  place, \<open>mean\<close> and \<open>std\<close> being broadcast along the channel axis: a vector of one value
  fits any tensor, a longer one only a tensor with as many channels; otherwise the in-place
  operation raises RuntimeError.
\<close>

definition broadcast :: "nat \<Rightarrow> real list \<Rightarrow> real list option" where
  "broadcast c v =
     (if length v = c then Some v
      else if length v = 1 then Some (replicate c (hd v))
      else None)"

definition normalize :: "tensor \<Rightarrow> real list \<Rightarrow> real list \<Rightarrow> error + tensor" where
  "normalize t mean std =
     (case (broadcast (length t) mean, broadcast (length t) std) of
        (Some m, Some s) \<Rightarrow>
          Inr (map (\<lambda>(plane, mu, sigma). map (map (\<lambda>v. (v - mu) / sigma)) plane) (zip t (zip m s)))
      | _ \<Rightarrow> Inl RuntimeError)"

subsection \<open>Single precision\<close>

text \<open>
  \<^verbatim>\<open>torch.tensor([x, y]).float()\<close> holds the two targets in single precision: each is
  rounded to the nearest number with a significand of 24 bits, ties to the even one. The
  exponent of a magnitude is searched from 127 down to -126, where the subnormal numbers
  begin. Magnitudes from \<open>2 ^ 128\<close> on, which the code turns into infinities, are outside the
  model: a target parsed from three characters lies between -3 and 19. The double that is
  rounded is taken as the exact quotient \<open>k / 50\<close>, as everywhere in this embedding; the
  quotient lies much closer to its double than to any point half-way between two singles,
  so both round to the same single.
\<close>

definition pow2 :: "int \<Rightarrow> real" where
  "pow2 e = (if 0 \<le> e then 2 ^ nat e else 1 / 2 ^ nat (- e))"

fun exponent_below :: "nat \<Rightarrow> real \<Rightarrow> int" where
  "exponent_below 0 a = - 126"
| "exponent_below (Suc k) a =
     (if pow2 (int (Suc k) - 126) \<le> a then int (Suc k) - 126 else exponent_below k a)"

definition float32_exponent :: "real \<Rightarrow> int" where
  "float32_exponent x = exponent_below 253 \<bar>x\<bar>"

definition round_half_even :: "real \<Rightarrow> int" where
  "round_half_even r =
     (let f = \<lfloor>r\<rfloor>; d = r - real_of_int f
      in if d < 1 / 2 then f
         else if 1 / 2 < d then f + 1
         else if even f then f else f + 1)"

definition to_float32 :: "real \<Rightarrow> real" where
  "to_float32 x =
     (let ulp = pow2 (float32_exponent x - 23)
      in real_of_int (round_half_even (x / ulp)) * ulp)"

subsection \<open>The dataset class\<close>

record xydataset =
  directory :: string
  random_hflips :: bool
  image_paths :: "string list"
  color_jitter :: "real \<times> real \<times> real \<times> real"

definition XYDataset_init :: "filesystem \<Rightarrow> string \<Rightarrow> bool \<Rightarrow> xydataset" where
  "XYDataset_init fs dir hflips =
     \<lparr>directory = dir, random_hflips = hflips,
      image_paths = glob_jpg fs dir,
      color_jitter = (0.3, 0.3, 0.3, 0.3)\<rparr>"

definition len :: "xydataset \<Rightarrow> nat" where
  "len self = length (image_paths self)"

text \<open>\<^verbatim>\<open>xs[idx]\<close> on a list: a negative index counts from the end, out of range raises.\<close>

definition py_index :: "'a list \<Rightarrow> int \<Rightarrow> error + 'a" where
  "py_index xs idx =
     (let n = int (length xs); k = (if idx < 0 then idx + n else idx)
      in if 0 \<le> k \<and> k < n then Inr (xs ! nat k) else Inl IndexError)"

text \<open>The body of the \<^verbatim>\<open>if\<close> in \<^verbatim>\<open>__getitem__\<close>: mirror the picture, negate \<open>x\<close>.\<close>

definition flip_and_negate :: "pil_image \<times> real \<Rightarrow> pil_image \<times> real" where
  "flip_and_negate s = (case s of (img, x) \<Rightarrow> (hflip img, - x))"

text \<open>
  The statements of \<^verbatim>\<open>__getitem__\<close> after the \<^verbatim>\<open>if\<close>, which work on the picture alone:
  colour jitter, resize to 224 by 224, conversion to a tensor, reversal of the channel axis
  (\<^verbatim>\<open>image.numpy()[::-1].copy()\<close>), normalisation.
\<close>

definition image_pipeline ::
  "access \<Rightarrow> real \<times> real \<times> real \<times> real \<Rightarrow> pil_image \<Rightarrow> error + tensor" where
  "image_pipeline a cfg img0 =
     (let img = apply_color_jitter a cfg img0;
          img = resize a img (224, 224);
          t = to_tensor img;
          t = rev t
      in normalize t [0.485, 0.456, 0.406] [0.229, 0.224, 0.225])"

text \<open>
  \<^verbatim>\<open>__getitem__\<close>, statement by statement: what the method returns or raises, together
  with the object \<open>self\<close> as the method leaves it. The test of the \<^verbatim>\<open>if\<close> is
  \<^verbatim>\<open>float(np.random.rand(1)) > 0.5\<close> and nothing else. A file that does not decode raises
  at the first transformation, after the two targets are parsed.
\<close>

definition getitem ::
  "access \<Rightarrow> xydataset \<Rightarrow> int \<Rightarrow> (error + tensor \<times> real list) \<times> xydataset" where
  "getitem a self idx =
     (case py_index (image_paths self) idx of
        Inl e \<Rightarrow> (Inl e, self)
      | Inr image_path \<Rightarrow>
     (case open_image a image_path of
        Unreadable \<Rightarrow> (Inl OSError, self)
      | file \<Rightarrow>
     (case get_x (basename image_path) of
        Inl e \<Rightarrow> (Inl e, self)
      | Inr x \<Rightarrow>
     (case get_y (basename image_path) of
        Inl e \<Rightarrow> (Inl e, self)
      | Inr y \<Rightarrow>
     (case file of
        Decoded img \<Rightarrow>
          (case (if rand a > 0.5 then flip_and_negate (img, x) else (img, x)) of
             (img, x) \<Rightarrow>
               (case image_pipeline a (color_jitter self) img of
                  Inl e \<Rightarrow> (Inl e, self)
                | Inr t \<Rightarrow> (Inr (t, [to_float32 x, to_float32 y]), self)))
      | _ \<Rightarrow> (Inl OSError, self))))))"

text \<open>What the method returns or raises.\<close>

definition getitem_result :: "access \<Rightarrow> xydataset \<Rightarrow> int \<Rightarrow> error + tensor \<times> real list" where
  "getitem_result a self idx = fst (getitem a self idx)"

text \<open>The object after a series of accesses, each with its own draws and index.\<close>

fun accesses :: "(access \<times> int) list \<Rightarrow> xydataset \<Rightarrow> xydataset" where
  "accesses [] self = self"
| "accesses ((a, idx) # rest) self = accesses rest (snd (getitem a self idx))"

subsection \<open>Train and test split\<close>

text \<open>
  \<^verbatim>\<open>test_percent = 0.1\<close>
  \<^verbatim>\<open>num_test = int(test_percent * len(dataset))\<close>
  \<^verbatim>\<open>train_dataset, test_dataset = random_split(dataset, [len(dataset) - num_test, num_test])\<close>

  \<^verbatim>\<open>int()\<close> on a float truncates towards zero. \<^verbatim>\<open>random_split\<close> raises ValueError unless the
  lengths add up to the size of the dataset; otherwise it draws a random permutation of the
  indices (the argument \<open>perm\<close> here) and cuts it into consecutive pieces of the given
  lengths. A subset is the list of its indices into the dataset. The lengths are natural
  numbers: \<open>num_test\<close> never exceeds the size of the dataset, so the subtraction is exact.
\<close>

definition test_percent :: real where
  "test_percent = 0.1"

definition int_of_float :: "real \<Rightarrow> int" where
  "int_of_float r = (if 0 \<le> r then \<lfloor>r\<rfloor> else \<lceil>r\<rceil>)"

definition num_test :: "xydataset \<Rightarrow> nat" where
  "num_test dataset = nat (int_of_float (test_percent * real (len dataset)))"

fun pieces :: "'a list \<Rightarrow> nat list \<Rightarrow> 'a list list" where
  "pieces xs [] = []"
| "pieces xs (l # ls) = take l xs # pieces (drop l xs) ls"

definition random_split :: "nat list \<Rightarrow> nat \<Rightarrow> nat list \<Rightarrow> error + nat list list" where
  "random_split perm n lengths =
     (if sum_list lengths \<noteq> n then Inl ValueError else Inr (pieces perm lengths))"

definition split_dataset :: "nat list \<Rightarrow> xydataset \<Rightarrow> error + nat list \<times> nat list" where
  "split_dataset perm dataset =
     (case random_split perm (len dataset) [len dataset - num_test dataset, num_test dataset] of
        Inl e \<Rightarrow> Inl e
      | Inr [train_dataset, test_dataset] \<Rightarrow> Inr (train_dataset, test_dataset)
      | Inr _ \<Rightarrow> Inl ValueError)"

subsection \<open>Floating point\<close>

text \<open>
  The notebook computes with doubles, the embedding with reals. Where a result could depend
  on the difference (the size of the test subset, the range of the targets) it is proved
  for the doubles too, from three facts about rounding to the nearest double: it is
  monotone, it leaves the integers up to \<open>2 ^ 53\<close> as they are, and in the normal range it
  exceeds its argument by at most one part in \<open>2 ^ 53\<close>. \<open>double_tenth\<close> is the double that
  the literal \<^verbatim>\<open>0.1\<close> denotes.
\<close>

definition double_tenth :: real where
  "double_tenth = 3602879701896397 / 2 ^ 55"

definition double_rounding :: "(real \<Rightarrow> real) \<Rightarrow> bool" where
  "double_rounding fl \<longleftrightarrow>
     (\<forall>x y. x \<le> y \<longrightarrow> fl x \<le> fl y) \<and>
     (\<forall>k::int. \<bar>k\<bar> \<le> 2 ^ 53 \<longrightarrow> fl (real_of_int k) = real_of_int k) \<and>
     (\<forall>x. 1 / 2 ^ 1022 \<le> x \<and> x \<le> 2 ^ 1023 \<longrightarrow> fl x \<le> x * (1 + 1 / 2 ^ 53))"

subsection \<open>The training loop\<close>

text \<open>
  The loop is embedded over what it calls: the two loaders, one optimisation step on a
  batch (zero the gradients, forward, loss, backward, step: the new model and the loss of
  the batch), the loss of the model on a batch, and the parameters \<^verbatim>\<open>model.state_dict()\<close>
  that \<^verbatim>\<open>torch.save\<close> writes. A loader gives, for an epoch, the batches it serves (both
  loaders reshuffle) and the exception that ends the iteration early, if a sample cannot be
  loaded; without exception the batches are all of them, \<^verbatim>\<open>len(loader)\<close> many.

  A loss is a number or NaN. NaN spreads through sums and quotients, and every comparison
  with NaN is false. An infinite loss is not a value of its own: in this loop it behaves as
  a number above the sentinel does.
\<close>

datatype pyfloat = Num real | NaN

fun fadd :: "pyfloat \<Rightarrow> pyfloat \<Rightarrow> pyfloat" where
  "fadd (Num x) (Num y) = Num (x + y)"
| "fadd _ _ = NaN"

fun fless :: "pyfloat \<Rightarrow> pyfloat \<Rightarrow> bool" where
  "fless (Num x) (Num y) = (x < y)"
| "fless _ _ = False"

record ('m, 'b, 'p) trainer =
  train_loader :: "nat \<Rightarrow> 'b list \<times> error option"
  test_loader :: "nat \<Rightarrow> 'b list \<times> error option"
  optimizer_step :: "'m \<Rightarrow> 'b \<Rightarrow> 'm \<times> pyfloat"
  mse_loss :: "'m \<Rightarrow> 'b \<Rightarrow> pyfloat"
  state_dict :: "'m \<Rightarrow> 'p"

text \<open>
  The state of the cell: the model, \<^verbatim>\<open>best_loss\<close>, the contents of the file
  \<^verbatim>\<open>BEST_MODEL_PATH\<close> (\<open>None\<close>: no such file), the epochs in which \<^verbatim>\<open>torch.save\<close> ran, the
  lines printed (epoch, train loss, test loss), and the exception raised, if any, after
  which nothing more runs.
\<close>

record ('m, 'p) training =
  model :: 'm
  best_loss :: pyfloat
  checkpoint :: "'p option"
  saved_epochs :: "nat list"
  printed :: "(nat \<times> pyfloat \<times> pyfloat) list"
  raised :: "error option"

definition NUM_EPOCHS :: nat where
  "NUM_EPOCHS = 50"

definition initial_training :: "'m \<Rightarrow> 'p option \<Rightarrow> ('m, 'p) training" where
  "initial_training m file =
     \<lparr>model = m, best_loss = Num 1000000000, checkpoint = file, saved_epochs = [], printed = [],
      raised = None\<rparr>"

text \<open>The inner loop over \<^verbatim>\<open>train_loader\<close>: the model is updated, the losses are summed.\<close>

fun train_pass ::
  "('m \<Rightarrow> 'b \<Rightarrow> 'm \<times> pyfloat) \<Rightarrow> 'b list \<Rightarrow> 'm \<times> pyfloat \<Rightarrow> 'm \<times> pyfloat" where
  "train_pass step [] (m, train_loss) = (m, train_loss)"
| "train_pass step (b # bs) (m, train_loss) =
     (case step m b of (m', loss) \<Rightarrow> train_pass step bs (m', fadd train_loss loss))"

text \<open>The inner loop over \<^verbatim>\<open>test_loader\<close>: the losses are summed, the model is only read.\<close>

fun test_pass :: "('m \<Rightarrow> 'b \<Rightarrow> pyfloat) \<Rightarrow> 'm \<Rightarrow> 'b list \<Rightarrow> pyfloat \<Rightarrow> pyfloat" where
  "test_pass loss_of m [] test_loss = test_loss"
| "test_pass loss_of m (b # bs) test_loss = test_pass loss_of m bs (fadd test_loss (loss_of m b))"

text \<open>
  \<^verbatim>\<open>loss /= len(loader)\<close>: with no batch the sum is still the Python float 0.0, and dividing
  it by zero raises.
\<close>

definition truediv :: "pyfloat \<Rightarrow> nat \<Rightarrow> error + pyfloat" where
  "truediv x n =
     (if n = 0 then Inl ZeroDivisionError
      else Inr (case x of Num r \<Rightarrow> Num (r / real n) | NaN \<Rightarrow> NaN))"

text \<open>One iteration of \<^verbatim>\<open>for epoch in range(NUM_EPOCHS)\<close>.\<close>

definition epoch_body ::
  "('m, 'b, 'p) trainer \<Rightarrow> nat \<Rightarrow> ('m, 'p) training \<Rightarrow> ('m, 'p) training" where
  "epoch_body env epoch st0 =
     (if raised st0 \<noteq> None then st0
      else
        case train_pass (optimizer_step env) (fst (train_loader env epoch))
               (model st0, Num 0.0) of
          (m, train_sum) \<Rightarrow>
            let st = st0\<lparr>model := m\<rparr> in
            (case snd (train_loader env epoch) of
               Some e \<Rightarrow> st\<lparr>raised := Some e\<rparr>
             | None \<Rightarrow>
            (case truediv train_sum (length (fst (train_loader env epoch))) of
               Inl e \<Rightarrow> st\<lparr>raised := Some e\<rparr>
             | Inr train_loss \<Rightarrow>
            (case snd (test_loader env epoch) of
               Some e \<Rightarrow> st\<lparr>raised := Some e\<rparr>
             | None \<Rightarrow>
            (case truediv (test_pass (mse_loss env) m (fst (test_loader env epoch)) (Num 0.0))
                    (length (fst (test_loader env epoch))) of
               Inl e \<Rightarrow> st\<lparr>raised := Some e\<rparr>
             | Inr test_loss \<Rightarrow>
                 let st = st\<lparr>printed := printed st @ [(epoch, train_loss, test_loss)]\<rparr> in
                 if fless test_loss (best_loss st)
                 then st\<lparr>checkpoint := Some (state_dict env m),
                         saved_epochs := saved_epochs st @ [epoch],
                         best_loss := test_loss\<rparr>
                 else st)))))"

text \<open>The first \<open>n\<close> iterations of the loop, and the whole cell.\<close>

primrec training_epochs ::
  "('m, 'b, 'p) trainer \<Rightarrow> nat \<Rightarrow> ('m, 'p) training \<Rightarrow> ('m, 'p) training" where
  "training_epochs env 0 st = st"
| "training_epochs env (Suc n) st = epoch_body env n (training_epochs env n st)"

definition training_loop ::
  "('m, 'b, 'p) trainer \<Rightarrow> 'm \<Rightarrow> 'p option \<Rightarrow> ('m, 'p) training" where
  "training_loop env m file = training_epochs env NUM_EPOCHS (initial_training m file)"

text \<open>The test loss printed for epoch \<open>e\<close> (the \<open>e\<close>-th line).\<close>

definition test_loss_of :: "('m, 'p) training \<Rightarrow> nat \<Rightarrow> pyfloat" where
  "test_loss_of st e = snd (snd (printed st ! e))"

text \<open>A loader delivers in an epoch: it serves at least one batch and raises nothing.\<close>

definition delivers :: "'b list \<times> error option \<Rightarrow> bool" where
  "delivers l \<longleftrightarrow> fst l \<noteq> [] \<and> snd l = None"

text \<open>
  What holds of the state after \<open>n\<close> iterations, started from \<open>initial_training m file\<close>:
  every line printed carries its epoch; \<open>best_loss\<close> is a number, the least of the sentinel
  and the test losses so far that are numbers; \<open>torch.save\<close> ran in exactly the epochs whose
  test loss was below the sentinel and below every earlier one that is a number; the file
  is untouched as long as no epoch saved, and otherwise holds the parameters of an epoch
  that saved and whose loss is \<open>best_loss\<close>.
\<close>

definition loop_invariant ::
  "('m, 'b, 'p) trainer \<Rightarrow> 'm \<Rightarrow> 'p option \<Rightarrow> nat \<Rightarrow> ('m, 'p) training \<Rightarrow> bool" where
  "loop_invariant env m file n st \<longleftrightarrow>
     length (printed st) \<le> n \<and>
     (raised st = None \<longrightarrow> length (printed st) = n) \<and>
     (\<forall>j<length (printed st). fst (printed st ! j) = j) \<and>
     best_loss st \<noteq> NaN \<and>
     (\<forall>v. fless v (best_loss st) \<longleftrightarrow>
        fless v (Num 1000000000) \<and>
        (\<forall>j<length (printed st). test_loss_of st j = NaN \<or> fless v (test_loss_of st j))) \<and>
     (\<forall>e. e \<in> set (saved_epochs st) \<longleftrightarrow>
        e < length (printed st) \<and> fless (test_loss_of st e) (Num 1000000000) \<and>
        (\<forall>j<e. test_loss_of st j = NaN \<or> fless (test_loss_of st e) (test_loss_of st j))) \<and>
     ((saved_epochs st = [] \<and> checkpoint st = file \<and> best_loss st = Num 1000000000) \<or>
      (\<exists>e\<in>set (saved_epochs st).
         checkpoint st =
           Some (state_dict env (model (training_epochs env (Suc e) (initial_training m file)))) \<and>
         best_loss st = test_loss_of st e))"

subsection \<open>Example inputs\<close>

text \<open>
  A directory with two labelled pictures, a text file and a hidden file; a picture of one
  row and two pixels, in colour and in grey; an access that reads it, with nearest-pixel
  resizing and a colour jitter that draws the identity; a dataset of 25 paths.
\<close>

definition example_fs :: filesystem where
  "example_fs =
     \<lparr>listdir = (\<lambda>d. if d = ''dataset''
                     then Some [''xy_075_050_a.jpg'', ''notes.txt'', ''.xy_010_010_b.jpg'',
                                ''xy_025_067_c.jpg'']
                     else None),
      expand_dirs = (\<lambda>p. [])\<rparr>"

text \<open>
  Two directories side by side, \<^verbatim>\<open>data1\<close> holding \<^verbatim>\<open>q.jpg\<close> and one whose name is
  \<^verbatim>\<open>data[1]\<close> holding \<^verbatim>\<open>r.jpg\<close>. As a pattern, \<^verbatim>\<open>data[1]\<close> stands for \<^verbatim>\<open>data1\<close> alone.
\<close>

definition example_fs_brackets :: filesystem where
  "example_fs_brackets =
     \<lparr>listdir = (\<lambda>d. if d = ''data1'' then Some [''q.jpg'']
                     else if d = ''data[1]'' then Some [''r.jpg'']
                     else if d = ''.'' then Some [''data1'', ''data[1]'']
                     else None),
      expand_dirs = (\<lambda>p. if p = ''data[1]'' then [''data1''] else [])\<rparr>"

definition example_dataset :: xydataset where
  "example_dataset = XYDataset_init example_fs ''dataset'' False"

definition example_rgb :: pil_image where
  "example_rgb = \<lparr>mode = RGB, rows = [[[10, 20, 30], [40, 50, 60]]]\<rparr>"

definition example_gray :: pil_image where
  "example_gray = \<lparr>mode = L, rows = [[[10], [40]]]\<rparr>"

definition nearest :: "pil_image \<Rightarrow> nat \<times> nat \<Rightarrow> nat \<Rightarrow> nat \<Rightarrow> pixel" where
  "nearest img sz i j =
     (case sz of (h, w) \<Rightarrow>
        rows img ! (i * length (rows img) div h) ! (j * length (rows img ! 0) div w))"

definition example_access :: "real \<Rightarrow> pil_image \<Rightarrow> access" where
  "example_access r img =
     \<lparr>open_image = (\<lambda>p. if p \<in> set [''dataset/xy_075_050_a.jpg'', ''dataset/xy_025_067_c.jpg'']
                        then Decoded img else Unreadable),
      rand = r,
      jitter_pixel = (\<lambda>cfg img p. p),
      interpolate = nearest\<rparr>"

definition example_many :: xydataset where
  "example_many =
     \<lparr>directory = ''d'', random_hflips = False,
      image_paths = map (\<lambda>c. ''d/xy_050_050_'' @ [c] @ ''.jpg'') ''abcdefghijklmnopqrstuvwxy'',
      color_jitter = (0.3, 0.3, 0.3, 0.3)\<rparr>"

text \<open>
  Three runs of the loop on an integer "model" that each batch increases by one. In the
  first every test loss is 2000000000. In the second the test loss is the distance of the
  model from 4, with two batches per epoch, so the losses are 2, 0, 2, ... In the third the
  test losses are 1/2, NaN, 2/5, 2/5, ...
\<close>

definition trainer_above_sentinel :: "(int, unit, int) trainer" where
  "trainer_above_sentinel =
     \<lparr>train_loader = (\<lambda>e. ([()], None)), test_loader = (\<lambda>e. ([()], None)),
      optimizer_step = (\<lambda>m b. (m + 1, Num 1)), mse_loss = (\<lambda>m b. Num 2000000000),
      state_dict = (\<lambda>m. m)\<rparr>"

definition trainer_best_in_middle :: "(int, unit, int) trainer" where
  "trainer_best_in_middle =
     \<lparr>train_loader = (\<lambda>e. ([(), ()], None)), test_loader = (\<lambda>e. ([()], None)),
      optimizer_step = (\<lambda>m b. (m + 1, Num 1)), mse_loss = (\<lambda>m b. Num \<bar>real_of_int m - 4\<bar>),
      state_dict = (\<lambda>m. m)\<rparr>"

definition trainer_with_nan :: "(int, unit, int) trainer" where
  "trainer_with_nan =
     \<lparr>train_loader = (\<lambda>e. ([()], None)), test_loader = (\<lambda>e. ([()], None)),
      optimizer_step = (\<lambda>m b. (m + 1, Num 1)),
      mse_loss = (\<lambda>m b. if m = 1 then Num (1 / 2) else if m = 2 then NaN else Num (2 / 5)),
      state_dict = (\<lambda>m. m)\<rparr>"

section \<open>Properties\<close>

subsection \<open>Decoding file names\<close>

lemma is_digit_not_space: "is_digit c \<Longrightarrow> \<not> is_space c"
  by (auto simp: is_digit_def is_space_def)

lemma is_digit_not_sign:
  "is_digit c \<Longrightarrow> c \<noteq> CHR ''-'' \<and> c \<noteq> CHR ''+'' \<and> c \<noteq> CHR ''_''"
  by (auto simp: is_digit_def)

lemma digit_value_range: "is_digit c \<Longrightarrow> 0 \<le> digit_value c \<and> digit_value c \<le> 9"
  by (auto simp: is_digit_def digit_value_def)

lemma py_int_three_digits:
  assumes "is_digit a" "is_digit b" "is_digit c"
  shows "py_int [a, b, c] = Inr (100 * digit_value a + 10 * digit_value b + digit_value c)"
  using assms is_digit_not_space[of a] is_digit_not_space[of c]
    is_digit_not_sign[of a] is_digit_not_sign[of b] is_digit_not_sign[of c]
  by (simp add: py_int_def strip_def)

text \<open>Three digits always parse, to a value between 0 and 999.\<close>

lemma py_int_digits_succeeds:
  assumes "length s = 3" "list_all is_digit s"
  shows "\<exists>d. py_int s = Inr d \<and> 0 \<le> d \<and> d \<le> 999"
proof -
  from assms(1) obtain a b c where s: "s = [a, b, c]"
    by (cases s; cases "tl s"; cases "tl (tl s)") auto
  with assms(2) have d: "is_digit a" "is_digit b" "is_digit c" by simp_all
  show ?thesis
    using py_int_three_digits[OF d] digit_value_range[OF d(1)] digit_value_range[OF d(2)]
      digit_value_range[OF d(3)] unfolding s by simp
qed

lemma target_in_range:
  assumes "0 \<le> d" "d \<le> 100"
  shows "- 1 \<le> (real_of_int d - 50.0) / 50.0 \<and> (real_of_int d - 50.0) / 50.0 \<le> 1"
  using assms by simp

lemma digits_value_bound:
  "digits_value acc s = Inr v \<Longrightarrow> 0 \<le> acc \<Longrightarrow> 0 \<le> v \<and> v < (acc + 1) * 10 ^ length s"
proof (induction acc s arbitrary: v rule: digits_value.induct)
  case (1 acc)
  then show ?case by simp
next
  case (2 acc c)
  then show ?case using digit_value_range[of c] by (auto split: if_splits)
next
  case (3 acc c d cs)
  from "3.prems" have c: "is_digit c" by (auto split: if_splits)
  let ?acc = "10 * acc + digit_value c"
  have acc: "0 \<le> ?acc" "?acc + 1 \<le> 10 * (acc + 1)"
    using digit_value_range[OF c] "3.prems"(2) by simp_all
  show ?case
  proof (cases "d = CHR ''_''")
    case True
    with "3.prems" c have "digits_value ?acc cs = Inr v" by simp
    from "3.IH"(1)[OF _ True this acc(1)] c
    have v: "0 \<le> v" "v < (?acc + 1) * 10 ^ length cs" by simp_all
    have "(?acc + 1) * 10 ^ length cs \<le> (10 * (acc + 1)) * 10 ^ length cs"
      using acc(2) by (intro mult_right_mono) simp_all
    also have "\<dots> \<le> (acc + 1) * 10 ^ length (c # d # cs)"
      using "3.prems"(2) by simp
    finally have "(?acc + 1) * 10 ^ length cs \<le> (acc + 1) * 10 ^ length (c # d # cs)" .
    with v(2) have "v < (acc + 1) * 10 ^ length (c # d # cs)" by (rule less_le_trans)
    with v(1) show ?thesis by blast
  next
    case False
    with "3.prems" c have "digits_value ?acc (d # cs) = Inr v" by simp
    from "3.IH"(2)[OF _ False this acc(1)] c
    have v: "0 \<le> v" "v < (?acc + 1) * 10 ^ length (d # cs)" by simp_all
    have "(?acc + 1) * 10 ^ length (d # cs) \<le> (10 * (acc + 1)) * 10 ^ length (d # cs)"
      using acc(2) by (intro mult_right_mono) simp_all
    also have "\<dots> = (acc + 1) * 10 ^ length (c # d # cs)"
      by simp
    finally have "(?acc + 1) * 10 ^ length (d # cs) \<le> (acc + 1) * 10 ^ length (c # d # cs)" .
    with v(2) have "v < (acc + 1) * 10 ^ length (c # d # cs)" by (rule less_le_trans)
    with v(1) show ?thesis by blast
  qed
qed

lemma length_strip: "length (strip s) \<le> length s"
proof -
  have "length (dropWhile is_space (rev (dropWhile is_space s))) \<le> length (rev (dropWhile is_space s))"
    by (rule length_dropWhile_le)
  also have "\<dots> \<le> length s" by (simp add: length_dropWhile_le)
  finally show ?thesis by (simp add: strip_def)
qed

text \<open>An integer parsed from at most three characters lies between -99 and 999.\<close>

lemma py_int_bound:
  assumes "py_int s = Inr d" "length s \<le> 3"
  shows "- 99 \<le> d \<and> d \<le> 999"
proof (cases "strip s")
  case Nil
  with assms(1) show ?thesis by (simp add: py_int_def)
next
  case (Cons c cs)
  have len: "length cs \<le> 2" using length_strip[of s] assms(2) Cons by simp
  have p2: "(10::int) ^ length cs \<le> 10 ^ 2" using len by (intro power_increasing) simp_all
  consider (minus) "c = CHR ''-''" | (plus) "c \<noteq> CHR ''-''" "c = CHR ''+''"
    | (digits) "c \<noteq> CHR ''-''" "c \<noteq> CHR ''+''"
    by blast
  then show ?thesis
  proof cases
    case minus
    with assms(1) Cons obtain v where v: "digits_value 0 cs = Inr v" "d = - v"
      by (auto simp: py_int_def map_sum_def split: sum.splits)
    from digits_value_bound[OF v(1)] p2 v(2) show ?thesis by simp
  next
    case plus
    with assms(1) Cons have "digits_value 0 cs = Inr d" by (simp add: py_int_def)
    from digits_value_bound[OF this] p2 show ?thesis by simp
  next
    case digits
    with assms(1) Cons have v: "digits_value 0 (c # cs) = Inr d" by (simp add: py_int_def)
    have "(10::int) ^ length (c # cs) \<le> 10 ^ 3"
      using len by (intro power_increasing) simp_all
    with digits_value_bound[OF v] show ?thesis by simp
  qed
qed

text \<open>So a target is far from the overflow of single precision.\<close>

lemma target_small:
  "get_x path = Inr x \<Longrightarrow> - 3 < x \<and> x < 19"
  "get_y path = Inr y \<Longrightarrow> - 3 < y \<and> y < 19"
proof -
  have b: "- 3 < (real_of_int d - 50.0) / 50.0 \<and> (real_of_int d - 50.0) / 50.0 < 19"
    if "py_int (slice i j path) = Inr d" "j - i \<le> 3" for i j d
  proof -
    have "length (slice i j path) \<le> 3" using that(2) by (simp add: slice_def)
    from py_int_bound[OF that(1) this] show ?thesis by simp
  qed
  show "get_x path = Inr x \<Longrightarrow> - 3 < x \<and> x < 19"
    using b[of 3 6] by (auto simp: get_x_def split: sum.splits)
  show "get_y path = Inr y \<Longrightarrow> - 3 < y \<and> y < 19"
    using b[of 7 10] by (auto simp: get_y_def split: sum.splits)
qed

text \<open>The same range for the doubly rounded quotient.\<close>

lemma target_double:
  assumes fl: "double_rounding fl" and d: "0 \<le> d" "d \<le> 100"
  shows "- 1 \<le> fl ((real_of_int d - 50.0) / 50.0) \<and> fl ((real_of_int d - 50.0) / 50.0) \<le> 1"
proof -
  have m: "\<And>x y. x \<le> y \<Longrightarrow> fl x \<le> fl y"
    using fl unfolding double_rounding_def by blast
  have i: "\<And>k::int. \<bar>k\<bar> \<le> 2 ^ 53 \<Longrightarrow> fl (real_of_int k) = real_of_int k"
    using fl unfolding double_rounding_def by blast
  have e: "fl (- 1) = - 1" "fl 1 = 1"
    using i[of "- 1"] i[of 1] by simp_all
  have "- 1 \<le> (real_of_int d - 50.0) / 50.0" "(real_of_int d - 50.0) / 50.0 \<le> 1"
    using d by simp_all
  from m[OF this(1)] m[OF this(2)] e show ?thesis by simp
qed

text \<open>
  C4. For a file name with digits at offsets 3 to 5 and 7 to 9: when the two integers
  parsed there lie in 0..100, \<open>get_x\<close> and \<open>get_y\<close> return \<open>(d - 50) / 50\<close>, and both
  values lie in the interval from -1 to 1.
\<close>

theorem get_x_get_y_in_range:
  assumes "length (slice 3 6 name) = 3" and "list_all is_digit (slice 3 6 name)"
    and "length (slice 7 10 name) = 3" and "list_all is_digit (slice 7 10 name)"
    and "py_int (slice 3 6 name) = Inr dx" and "0 \<le> dx" and "dx \<le> 100"
    and "py_int (slice 7 10 name) = Inr dy" and "0 \<le> dy" and "dy \<le> 100"
  shows "get_x name = Inr ((real_of_int dx - 50.0) / 50.0) \<and>
         get_y name = Inr ((real_of_int dy - 50.0) / 50.0) \<and>
         - 1 \<le> (real_of_int dx - 50.0) / 50.0 \<and> (real_of_int dx - 50.0) / 50.0 \<le> 1 \<and>
         - 1 \<le> (real_of_int dy - 50.0) / 50.0 \<and> (real_of_int dy - 50.0) / 50.0 \<le> 1"
proof -
  have "get_x name = Inr ((real_of_int dx - 50.0) / 50.0)"
    using assms(5) by (simp add: get_x_def)
  moreover have "get_y name = Inr ((real_of_int dy - 50.0) / 50.0)"
    using assms(8) by (simp add: get_y_def)
  ultimately show ?thesis
    using target_in_range[OF assms(6,7)] target_in_range[OF assms(9,10)] by blast
qed

theorem get_x_get_y_in_range_witness:
  "get_x ''xy_000_100_a.jpg'' = Inr (- 1) \<and> get_y ''xy_000_100_a.jpg'' = Inr 1"
proof -
  have 1: "length (slice 3 6 ''xy_000_100_a.jpg'') = 3"
    by (simp add: slice_def)
  have 2: "list_all is_digit (slice 3 6 ''xy_000_100_a.jpg'')"
    by (simp add: slice_def is_digit_def)
  have 3: "length (slice 7 10 ''xy_000_100_a.jpg'') = 3"
    by (simp add: slice_def)
  have 4: "list_all is_digit (slice 7 10 ''xy_000_100_a.jpg'')"
    by (simp add: slice_def is_digit_def)
  have 5: "py_int (slice 3 6 ''xy_000_100_a.jpg'') = Inr 0"
    by (simp add: slice_def py_int_def strip_def is_space_def is_digit_def digit_value_def)
  have 6: "py_int (slice 7 10 ''xy_000_100_a.jpg'') = Inr 100"
    by (simp add: slice_def py_int_def strip_def is_space_def is_digit_def digit_value_def)
  from get_x_get_y_in_range[OF 1 2 3 4 5 _ _ 6] show ?thesis by simp
qed

subsection \<open>The flip\<close>

text \<open>
  C5. Mirroring a picture and negating its x target, twice, gives back the picture and
  the target: the body of the flip branch is an involution.
\<close>

theorem flip_and_negate_involution:
  "flip_and_negate (flip_and_negate (img, x)) = (img, x)"
  by (simp add: flip_and_negate_def hflip_def rev_map[symmetric] o_def)

subsection \<open>The picture pipeline\<close>

lemma has_shape_iff:
  "has_shape t (c, h, w) \<longleftrightarrow>
     length t = c \<and> (\<forall>plane\<in>set t. length plane = h \<and> (\<forall>row\<in>set plane. length row = w))"
  by (auto simp: has_shape_def list_all_iff)

lemma mode_resize_jitter [simp]:
  "mode (resize a (apply_color_jitter a cfg img) sz) = mode img"
  by (cases sz) (simp add: resize_def apply_color_jitter_def)

lemma to_tensor_shape:
  "has_shape (to_tensor (resize a img (h, w))) (nbands (mode img), h, w)"
  by (auto simp: has_shape_iff to_tensor_def resize_def)

lemma has_shape_rev: "has_shape t s \<Longrightarrow> has_shape (rev t) s"
  by (cases s) (auto simp: has_shape_iff)

lemma normalize_shape:
  assumes "has_shape t (c, h, w)" "length mean = c" "length std = c"
  shows "\<exists>t'. normalize t mean std = Inr t' \<and> has_shape t' (c, h, w)"
  using assms
  by (auto simp: normalize_def broadcast_def has_shape_iff dest!: set_zip_leftD)

lemma normalize_mismatch:
  assumes "length t \<noteq> 3" "length mean = 3"
  shows "normalize t mean std = Inl RuntimeError"
  using assms by (auto simp: normalize_def broadcast_def split: option.splits)

lemma length_pipeline_tensor:
  "length (rev (to_tensor (resize a (apply_color_jitter a cfg img) (224, 224)))) = nbands (mode img)"
  by (simp add: to_tensor_def)

text \<open>A picture with three bands comes out as a tensor of shape (3, 224, 224).\<close>

lemma image_pipeline_rgb:
  assumes "mode img = RGB"
  shows "\<exists>t. image_pipeline a cfg img = Inr t \<and> has_shape t (3, 224, 224)"
proof -
  let ?j = "apply_color_jitter a cfg img"
  have "has_shape (to_tensor (resize a ?j (224, 224))) (nbands (mode ?j), 224, 224)"
    by (rule to_tensor_shape)
  moreover have "mode ?j = RGB" using assms by (simp add: apply_color_jitter_def)
  ultimately have "has_shape (rev (to_tensor (resize a ?j (224, 224)))) (3, 224, 224)"
    by (simp add: has_shape_rev)
  from normalize_shape[OF this, of "[0.485, 0.456, 0.406]" "[0.229, 0.224, 0.225]"]
  show ?thesis by (simp add: image_pipeline_def Let_def)
qed

text \<open>A picture with one band does not fit the three means: RuntimeError.\<close>

lemma image_pipeline_not_rgb:
  assumes "mode img \<noteq> RGB"
  shows "image_pipeline a cfg img = Inl RuntimeError"
proof -
  have "nbands (mode img) \<noteq> 3" using assms by (cases "mode img") simp_all
  then have "length (rev (to_tensor (resize a (apply_color_jitter a cfg img) (224, 224)))) \<noteq> 3"
    using length_pipeline_tensor[of a cfg img] by simp
  from normalize_mismatch[OF this, of "[0.485, 0.456, 0.406]" "[0.229, 0.224, 0.225]"]
  show ?thesis by (simp add: image_pipeline_def Let_def)
qed

lemma image_pipeline_rand [simp]:
  "image_pipeline (a\<lparr>rand := r\<rparr>) cfg img = image_pipeline a cfg img"
  by (simp add: image_pipeline_def apply_color_jitter_def resize_def)

lemma mode_hflip [simp]: "mode (hflip img) = mode img"
  by (simp add: hflip_def)

subsection \<open>Single precision\<close>

lemma pow2_pos: "0 < pow2 e"
  by (simp add: pow2_def)

lemma exponent_below_zero: "exponent_below k 0 = - 126"
  by (induction k) (simp_all add: not_le pow2_pos)

lemma to_float32_zero: "to_float32 0 = 0"
  by (simp add: to_float32_def float32_exponent_def exponent_below_zero round_half_even_def)

lemma to_float32_minus_half: "to_float32 (- (1 / 2)) = - (1 / 2)"
  by code_simp

lemma to_float32_example: "to_float32 (17 / 50) = 11408507 / 33554432"
  by code_simp

subsection \<open>One access to the dataset\<close>

text \<open>Every exit of the method leaves the object as it was.\<close>

lemma getitem_keeps_self: "snd (getitem a self idx) = self"
  by (simp add: getitem_def flip_and_negate_def
      split: sum.splits image_file.splits prod.splits if_splits)

lemma accesses_keep_self: "accesses as self = self"
  by (induction as self rule: accesses.induct) (simp_all add: getitem_keeps_self)

text \<open>What \<open>__getitem__\<close> returns once the path, the picture and the two targets are there.\<close>

lemma getitem_result_unfold:
  assumes "py_index (image_paths self) idx = Inr p" "open_image a p = Decoded img"
    "get_x (basename p) = Inr x" "get_y (basename p) = Inr y"
  shows "getitem_result a self idx =
     (case image_pipeline a (color_jitter self) (if rand a > 0.5 then hflip img else img) of
        Inl e \<Rightarrow> Inl e
      | Inr t \<Rightarrow> Inr (t, [to_float32 (if rand a > 0.5 then - x else x), to_float32 y]))"
  using assms
  by (simp add: getitem_result_def getitem_def flip_and_negate_def split: sum.splits)

text \<open>The flag \<open>random_hflips\<close> is stored by the constructor and read nowhere.\<close>

lemma getitem_ignores_random_hflips:
  "getitem_result a (self\<lparr>random_hflips := b\<rparr>) idx = getitem_result a self idx"
  by (simp add: getitem_result_def getitem_def
      split: sum.splits image_file.splits prod.splits)

lemma getitem_result_InrD:
  assumes "py_index (image_paths self) idx = Inr p" "getitem_result a self idx = Inr (t, tgt)"
  shows "\<exists>img x y. open_image a p = Decoded img \<and> get_x (basename p) = Inr x \<and>
           get_y (basename p) = Inr y \<and> mode img = RGB \<and>
           image_pipeline a (color_jitter self) (if rand a > 0.5 then hflip img else img) = Inr t \<and>
           tgt = [to_float32 (if rand a > 0.5 then - x else x), to_float32 y]"
proof -
  from assms obtain x where x: "get_x (basename p) = Inr x"
    by (auto simp: getitem_result_def getitem_def split: sum.splits image_file.splits)
  from assms x obtain y where y: "get_y (basename p) = Inr y"
    by (auto simp: getitem_result_def getitem_def split: sum.splits image_file.splits)
  from assms x y obtain img where img: "open_image a p = Decoded img"
    by (auto simp: getitem_result_def getitem_def split: image_file.splits)
  note u = getitem_result_unfold[OF assms(1) img x y]
  have rgb: "mode img = RGB"
  proof (rule ccontr)
    assume "mode img \<noteq> RGB"
    then have "mode (if rand a > 0.5 then hflip img else img) \<noteq> RGB" by simp
    from image_pipeline_not_rgb[OF this] u assms(2) show False by simp
  qed
  from u assms(2) have "image_pipeline a (color_jitter self) (if rand a > 0.5 then hflip img else img) = Inr t \<and>
           tgt = [to_float32 (if rand a > 0.5 then - x else x), to_float32 y]"
    by (auto split: sum.splits)
  with img x y rgb show ?thesis by blast
qed

lemma example_paths:
  "image_paths example_dataset = [''dataset/xy_075_050_a.jpg'', ''dataset/xy_025_067_c.jpg'']"
  by (simp add: example_dataset_def XYDataset_init_def glob_jpg_def os_path_join_def
      os_path_split_def basename_def starts_with_def ends_with_def has_magic_def glob1_def
      example_fs_def ishidden_def fnmatch_jpg_def rstrip_slash_def Let_def)

lemma example_index: "py_index (image_paths example_dataset) 0 = Inr ''dataset/xy_075_050_a.jpg''"
  by (simp add: example_paths py_index_def)

lemma example_index_c: "py_index (image_paths example_dataset) 1 = Inr ''dataset/xy_025_067_c.jpg''"
  by (simp add: example_paths py_index_def)

lemma example_x: "get_x (basename ''dataset/xy_075_050_a.jpg'') = Inr (1 / 2)"
  by (simp add: basename_def get_x_def slice_def py_int_def strip_def is_space_def
      is_digit_def digit_value_def)

lemma example_y: "get_y (basename ''dataset/xy_075_050_a.jpg'') = Inr 0"
  by (simp add: basename_def get_y_def slice_def py_int_def strip_def is_space_def
      is_digit_def digit_value_def)

lemma example_x_c: "get_x (basename ''dataset/xy_025_067_c.jpg'') = Inr (- (1 / 2))"
  by (simp add: basename_def get_x_def slice_def py_int_def strip_def is_space_def
      is_digit_def digit_value_def)

lemma example_y_c: "get_y (basename ''dataset/xy_025_067_c.jpg'') = Inr (17 / 50)"
  by (simp add: basename_def get_y_def slice_def py_int_def strip_def is_space_def
      is_digit_def digit_value_def)

lemma example_open:
  "open_image (example_access r img) ''dataset/xy_075_050_a.jpg'' = Decoded img"
  by (simp add: example_access_def)

lemma example_open_c:
  "open_image (example_access r img) ''dataset/xy_025_067_c.jpg'' = Decoded img"
  by (simp add: example_access_def)

lemma case_sum_map_sum:
  "(case s of Inl e \<Rightarrow> Inl e | Inr t \<Rightarrow> Inr (f t)) = map_sum id f s"
  by (cases s) simp_all

text \<open>
  C1. On a dataset built with \<open>random_hflips = False\<close>, an access never mirrors the picture
  and never negates \<open>x\<close>. The code does both whenever the number drawn exceeds 0.5: for the
  file \<^verbatim>\<open>xy_075_050_a.jpg\<close>, whose \<open>x\<close> is 1/2, and the draw 0.7, the access returns the
  tensor of the mirrored picture with the target \<open>[-1/2, 0]\<close>.
\<close>

theorem getitem_flips_with_flag_off:
  "random_hflips example_dataset = False \<and>
   get_x (basename ''dataset/xy_075_050_a.jpg'') = Inr (1 / 2) \<and>
   rows example_rgb = [[[10, 20, 30], [40, 50, 60]]] \<and>
   rows (hflip example_rgb) = [[[40, 50, 60], [10, 20, 30]]] \<and>
   \<not> isl (getitem_result (example_access 0.7 example_rgb) example_dataset 0) \<and>
   getitem_result (example_access 0.7 example_rgb) example_dataset 0 =
     map_sum id (\<lambda>t. (t, [- (1 / 2), 0]))
       (image_pipeline (example_access 0.7 example_rgb) (color_jitter example_dataset)
          (hflip example_rgb))"
proof -
  let ?a = "example_access 0.7 example_rgb"
  have r: "rand ?a > 0.5" by (simp add: example_access_def)
  have u: "getitem_result ?a example_dataset 0 =
     map_sum id (\<lambda>t. (t, [- (1 / 2), 0]))
       (image_pipeline ?a (color_jitter example_dataset) (hflip example_rgb))"
    using getitem_result_unfold[OF example_index example_open[of "0.7" example_rgb] example_x example_y] r
    by (simp add: case_sum_map_sum to_float32_zero to_float32_minus_half)
  have "mode (hflip example_rgb) = RGB" by (simp add: example_rgb_def)
  from image_pipeline_rgb[OF this, of ?a "color_jitter example_dataset"]
  have "\<not> isl (getitem_result ?a example_dataset 0)"
    unfolding u by auto
  moreover have "random_hflips example_dataset = False"
    by (simp add: example_dataset_def XYDataset_init_def)
  moreover have "rows example_rgb = [[[10, 20, 30], [40, 50, 60]]]"
    "rows (hflip example_rgb) = [[[40, 50, 60], [10, 20, 30]]]"
    by (simp_all add: example_rgb_def hflip_def)
  ultimately show ?thesis using u example_x by blast
qed

text \<open>
  C6. For a picture in mode RGB, whatever its width and height, an access with a valid
  index, a file that opens and a name that parses returns a tensor of shape (3, 224, 224).
\<close>

theorem getitem_shape_rgb:
  assumes "py_index (image_paths self) idx = Inr p" and "open_image a p = Decoded img"
    and "get_x (basename p) = Inr x" and "get_y (basename p) = Inr y"
    and "mode img = RGB"
  shows "\<exists>t tgt. getitem_result a self idx = Inr (t, tgt) \<and> has_shape t (3, 224, 224)"
proof -
  let ?img = "if rand a > 0.5 then hflip img else img"
  have "mode ?img = RGB" using assms(5) by simp
  from image_pipeline_rgb[OF this, of a "color_jitter self"]
    getitem_result_unfold[OF assms(1-4)]
  show ?thesis by auto
qed

theorem getitem_shape_rgb_witness:
  "mode example_rgb = RGB \<and>
   \<not> isl (getitem_result (example_access 0.3 example_rgb) example_dataset 0) \<and>
   has_shape (fst (projr (getitem_result (example_access 0.3 example_rgb) example_dataset 0)))
     (3, 224, 224)"
proof -
  have m: "mode example_rgb = RGB" by (simp add: example_rgb_def)
  from getitem_shape_rgb[OF example_index example_open[of "0.3" example_rgb] example_x example_y m]
  show ?thesis using m by auto
qed

text \<open>
  The number of bands is not free: the same access to a grey picture (one band) raises
  RuntimeError in \<open>normalize\<close>, and returns no tensor at all.
\<close>

theorem getitem_gray_raises:
  "mode example_gray = L \<and>
   getitem_result (example_access 0.3 example_gray) example_dataset 0 = Inl RuntimeError"
proof -
  let ?a = "example_access 0.3 example_gray"
  have "mode (if rand ?a > 0.5 then hflip example_gray else example_gray) \<noteq> RGB"
    by (simp add: example_gray_def)
  from image_pipeline_not_rgb[OF this, of ?a "color_jitter example_dataset"]
    getitem_result_unfold[OF example_index example_open[of "0.3" example_gray] example_x example_y]
  show ?thesis by (simp add: example_gray_def)
qed

text \<open>
  C9. The \<open>y\<close> target an access returns is \<open>(int(basename[7:10]) - 50) / 50\<close>, as parsed from
  the file name, rounded to single precision; whatever number is drawn for the flip, the
  access returns, with that same \<open>y\<close>.
\<close>

theorem getitem_y_target:
  assumes "py_index (image_paths self) idx = Inr p"
    and "getitem_result a self idx = Inr (t, tgt)"
  shows "\<exists>d x'. py_int (slice 7 10 (basename p)) = Inr d \<and>
           tgt = [x', to_float32 ((real_of_int d - 50.0) / 50.0)] \<and>
           (\<forall>r. \<exists>t' x''. getitem_result (a\<lparr>rand := r\<rparr>) self idx =
                   Inr (t', [x'', to_float32 ((real_of_int d - 50.0) / 50.0)]))"
proof -
  from getitem_result_InrD[OF assms] obtain img x y where
    f: "open_image a p = Decoded img" "get_x (basename p) = Inr x" "get_y (basename p) = Inr y"
      "mode img = RGB" "tgt = [to_float32 (if rand a > 0.5 then - x else x), to_float32 y]"
    by blast
  from f(3) obtain d where d: "py_int (slice 7 10 (basename p)) = Inr d"
      "y = (real_of_int d - 50.0) / 50.0"
    by (auto simp: get_y_def split: sum.splits)
  have "\<exists>t' x''. getitem_result (a\<lparr>rand := r\<rparr>) self idx = Inr (t', [x'', to_float32 y])" for r
  proof -
    let ?a = "a\<lparr>rand := r\<rparr>"
    have o: "open_image ?a p = Decoded img" using f(1) by simp
    let ?img = "if rand ?a > 0.5 then hflip img else img"
    have "mode ?img = RGB" using f(4) by simp
    from image_pipeline_rgb[OF this, of ?a "color_jitter self"]
      getitem_result_unfold[OF assms(1) o f(2,3)]
    show ?thesis by auto
  qed
  with d f(5) show ?thesis by blast
qed

theorem getitem_y_target_witness:
  "snd (projr (getitem_result (example_access 0.3 example_rgb) example_dataset 1)) ! 1 =
     11408507 / 33554432 \<and>
   snd (projr (getitem_result (example_access 0.7 example_rgb) example_dataset 1)) ! 1 =
     11408507 / 33554432"
proof -
  let ?a = "example_access 0.3 example_rgb"
  have "mode (if rand ?a > 0.5 then hflip example_rgb else example_rgb) = RGB"
    by (simp add: example_rgb_def)
  from image_pipeline_rgb[OF this, of ?a "color_jitter example_dataset"]
    getitem_result_unfold[OF example_index_c example_open_c[of "0.3" example_rgb] example_x_c example_y_c]
  obtain t tgt where r: "getitem_result ?a example_dataset 1 = Inr (t, tgt)"
    by auto
  have d: "py_int (slice 7 10 (basename ''dataset/xy_025_067_c.jpg'')) = Inr 67"
    by (simp add: basename_def slice_def py_int_def strip_def is_space_def
        is_digit_def digit_value_def)
  have "(real_of_int 67 - 50.0) / 50.0 = (17 / 50 :: real)" by simp
  then have v: "to_float32 ((real_of_int 67 - 50.0) / 50.0) = 11408507 / 33554432"
    by (simp only: to_float32_example)
  from getitem_y_target[OF example_index_c r] obtain d' x' where
    o: "py_int (slice 7 10 (basename ''dataset/xy_025_067_c.jpg'')) = Inr d'"
      "tgt = [x', to_float32 ((real_of_int d' - 50.0) / 50.0)]"
      "\<forall>r. \<exists>t' x''. getitem_result (?a\<lparr>rand := r\<rparr>) example_dataset 1 =
              Inr (t', [x'', to_float32 ((real_of_int d' - 50.0) / 50.0)])"
    by blast
  from o(1) d have d': "d' = 67" by simp
  have 1: "tgt = [x', 11408507 / 33554432]"
    using o(2) unfolding d' v .
  have 2: "\<forall>r. \<exists>t' x''. getitem_result (?a\<lparr>rand := r\<rparr>) example_dataset 1 =
              Inr (t', [x'', 11408507 / 33554432])"
    using o(3) unfolding d' v .
  have "?a\<lparr>rand := 0.7\<rparr> = example_access 0.7 example_rgb"
    by (simp add: example_access_def)
  with 2 obtain t' x'' where
    "getitem_result (example_access 0.7 example_rgb) example_dataset 1 =
       Inr (t', [x'', 11408507 / 33554432])"
    by metis
  with r 1 show ?thesis by simp
qed

text \<open>
  The rounding is there: for \<^verbatim>\<open>xy_025_067_c.jpg\<close> the name gives \<open>y = 17/50\<close>, and the access
  returns the nearest single, \<open>11408507 / 2 ^ 25\<close>, which is another number.
\<close>

theorem getitem_y_is_rounded:
  "get_y (basename ''dataset/xy_025_067_c.jpg'') = Inr (17 / 50) \<and>
   \<not> isl (getitem_result (example_access 0.3 example_rgb) example_dataset 1) \<and>
   snd (projr (getitem_result (example_access 0.3 example_rgb) example_dataset 1)) =
     [- (1 / 2), 11408507 / 33554432] \<and>
   (11408507 / 33554432 :: real) \<noteq> 17 / 50"
proof -
  let ?a = "example_access 0.3 example_rgb"
  have "mode (if rand ?a > 0.5 then hflip example_rgb else example_rgb) = RGB"
    by (simp add: example_rgb_def)
  from image_pipeline_rgb[OF this, of ?a "color_jitter example_dataset"]
    getitem_result_unfold[OF example_index_c example_open_c[of "0.3" example_rgb] example_x_c example_y_c]
  have "\<not> isl (getitem_result ?a example_dataset 1) \<and>
        snd (projr (getitem_result ?a example_dataset 1)) = [- (1 / 2), 11408507 / 33554432]"
    by (auto simp: example_access_def to_float32_minus_half to_float32_example)
  then show ?thesis using example_y_c by simp
qed

subsection \<open>Listing the directory\<close>

lemma ends_with_append: "ends_with suf s \<Longrightarrow> ends_with suf (pre @ s)"
  by (auto simp: ends_with_def)

lemma ends_with_os_path_join: "ends_with suf n \<Longrightarrow> ends_with suf (os_path_join d n)"
  using ends_with_append[of suf n d] ends_with_append[of suf n "d @ ''/''"]
  by (simp add: os_path_join_def)

lemma glob1_matches: "n \<in> set (glob1 fs d) \<Longrightarrow> fnmatch_jpg n \<and> \<not> ishidden n"
  by (auto simp: glob1_def split: option.splits)

lemma glob_jpg_ends_with: "p \<in> set (glob_jpg fs dir) \<Longrightarrow> ends_with ''.jpg'' p"
  by (auto simp: glob_jpg_def Let_def fnmatch_jpg_def split: if_splits
      dest!: glob1_matches intro: ends_with_os_path_join)

lemma set_rstrip_slash: "set (rstrip_slash s) \<subseteq> set s"
  by (auto simp: rstrip_slash_def dest: set_dropWhileD)

lemma has_magic_iff: "has_magic s \<longleftrightarrow> (\<exists>c\<in>set s. c = CHR ''*'' \<or> c = CHR ''?'' \<or> c = CHR ''['')"
  by (auto simp: has_magic_def list_ex_iff)

lemma basename_join_pattern: "basename (os_path_join dir ''*.jpg'') = ''*.jpg''"
proof -
  have a: "basename (s @ ''/*.jpg'') = ''*.jpg''" for s
    by (simp add: basename_def)
  have b: "basename (s @ ''*.jpg'') = ''*.jpg''" if "ends_with ''/'' s" for s
  proof -
    from that obtain s' where "s = s' @ ''/''"
      by (metis append_take_drop_id ends_with_def)
    then show ?thesis using a[of s'] by simp
  qed
  have c: "basename ''*.jpg'' = ''*.jpg''" by (simp add: basename_def)
  show ?thesis using a[of dir] b[of dir] c
    by (auto simp: os_path_join_def starts_with_def)
qed

lemma dirname_no_magic:
  assumes "\<not> has_magic dir"
  shows "\<not> has_magic (fst (os_path_split (os_path_join dir ''*.jpg'')))"
proof -
  let ?p = "os_path_join dir ''*.jpg''"
  have p: "?p = dir @ ''*.jpg'' \<or> ?p = dir @ ''/*.jpg''"
    by (auto simp: os_path_join_def starts_with_def)
  have "take (length ?p - length (basename ?p)) ?p = dir \<or>
        take (length ?p - length (basename ?p)) ?p = dir @ ''/''"
    using p unfolding basename_join_pattern by auto
  then have "set (take (length ?p - length (basename ?p)) ?p) \<subseteq> set dir \<union> {CHR ''/''}"
    by auto
  then have "set (fst (os_path_split ?p)) \<subseteq> set dir \<union> {CHR ''/''}"
    using set_rstrip_slash[of "take (length ?p - length (basename ?p)) ?p"]
    by (auto simp: os_path_split_def Let_def)
  with assms show ?thesis by (auto simp: has_magic_iff)
qed

text \<open>For a directory name without wildcards, the listing is that of the one directory.\<close>

lemma glob_jpg_literal:
  assumes "\<not> has_magic dir"
  shows "glob_jpg fs dir =
    (let dirname = fst (os_path_split (os_path_join dir ''*.jpg''))
     in if dirname = [] then glob1 fs dirname else map (os_path_join dirname) (glob1 fs dirname))"
  using dirname_no_magic[OF assms] by (simp add: glob_jpg_def Let_def)

text \<open>The directory that is listed: the given name without its trailing slashes.\<close>

lemma rstrip_slash_append_slash:
  "rstrip_slash (d @ ''/'') = rstrip_slash d"
  by (simp add: rstrip_slash_def)

lemma rstrip_slash_id: "d \<noteq> [] \<Longrightarrow> last d \<noteq> CHR ''/'' \<Longrightarrow> rstrip_slash d = d"
  by (cases d rule: rev_cases) (simp_all add: rstrip_slash_def)

lemma ends_with_slash_iff: "ends_with ''/'' d \<longleftrightarrow> d \<noteq> [] \<and> last d = CHR ''/''"
proof (cases d rule: rev_cases)
  case Nil
  then show ?thesis by (simp add: ends_with_def)
next
  case (snoc ys y)
  then show ?thesis by (auto simp: ends_with_def)
qed

lemma dirname_of_directory:
  "fst (os_path_split (os_path_join dir ''*.jpg'')) =
     (if list_all (\<lambda>c. c = CHR ''/'') dir then dir else rstrip_slash dir)"
proof -
  let ?p = "os_path_join dir ''*.jpg''"
  let ?head = "take (length ?p - length (basename ?p)) ?p"
  have sp: "fst (os_path_split ?p) =
      (if ?head \<noteq> [] \<and> \<not> list_all (\<lambda>c. c = CHR ''/'') ?head then rstrip_slash ?head else ?head)"
    by (simp add: os_path_split_def Let_def)
  consider (empty) "dir = []" | (slash) "dir \<noteq> []" "last dir = CHR ''/''"
    | (plain) "dir \<noteq> []" "last dir \<noteq> CHR ''/''"
    by blast
  then show ?thesis
  proof cases
    case empty
    then show ?thesis
      by (simp add: os_path_split_def os_path_join_def starts_with_def basename_def Let_def)
  next
    case slash
    then have "?p = dir @ ''*.jpg''"
      by (simp add: os_path_join_def starts_with_def ends_with_slash_iff)
    then have h: "?head = dir" using basename_join_pattern[of dir] by simp
    show ?thesis unfolding sp h using slash by simp
  next
    case plain
    then have "?p = dir @ ''/*.jpg''"
      by (simp add: os_path_join_def starts_with_def ends_with_slash_iff)
    then have h: "?head = dir @ ''/''" using basename_join_pattern[of dir] by simp
    have "last dir \<in> set dir" using plain(1) by simp
    then have "\<not> list_all (\<lambda>c. c = CHR ''/'') dir"
      using plain(2) by (auto simp: list_all_iff)
    then show ?thesis
      unfolding sp h using rstrip_slash_id[OF plain]
      by (simp add: rstrip_slash_append_slash)
  qed
qed

text \<open>
  C8. Every path the dataset stores ends in \<^verbatim>\<open>.jpg\<close>. For a directory name without
  wildcards the stored paths are exactly the entries of the given directory that match
  \<^verbatim>\<open>*.jpg\<close> and are not hidden, in the order of the listing, and \<open>len\<close> is their number. An
  access leaves the object as it was, on every exit of the method, so after any series of
  accesses the stored paths and the length are what they were.
\<close>

theorem dataset_lists_jpg_and_getitem_keeps_it:
  assumes "ds = XYDataset_init fs dir hflips"
  shows "(\<forall>p\<in>set (image_paths ds). ends_with ''.jpg'' p) \<and>
         (\<not> has_magic dir \<longrightarrow>
            (let dirname = (if list_all (\<lambda>c. c = CHR ''/'') dir then dir else rstrip_slash dir);
                 names = (case listdir fs (if dirname = [] then ''.'' else dirname) of
                            None \<Rightarrow> [] | Some names \<Rightarrow> names);
                 found = filter (\<lambda>n. \<not> ishidden n \<and> fnmatch_jpg n) names
             in image_paths ds = map (\<lambda>n. if dirname = [] then n else os_path_join dirname n) found \<and>
                len ds = length found)) \<and>
         snd (getitem a self idx) = self \<and>
         image_paths (accesses as self) = image_paths self \<and>
         len (accesses as self) = len self"
proof -
  have paths: "image_paths ds = glob_jpg fs dir"
    by (simp add: assms XYDataset_init_def)
  have 1: "\<forall>p\<in>set (image_paths ds). ends_with ''.jpg'' p"
    unfolding paths by (auto dest: glob_jpg_ends_with)
  have 2: "let dirname = (if list_all (\<lambda>c. c = CHR ''/'') dir then dir else rstrip_slash dir);
                 names = (case listdir fs (if dirname = [] then ''.'' else dirname) of
                            None \<Rightarrow> [] | Some names \<Rightarrow> names);
                 found = filter (\<lambda>n. \<not> ishidden n \<and> fnmatch_jpg n) names
             in image_paths ds = map (\<lambda>n. if dirname = [] then n else os_path_join dirname n) found \<and>
                len ds = length found"
    if "\<not> has_magic dir"
    unfolding len_def paths glob_jpg_literal[OF that] dirname_of_directory
    by (auto simp: Let_def glob1_def conj_commute split: option.splits)
  from 1 2 show ?thesis
    by (simp add: getitem_keeps_self accesses_keep_self)
qed

theorem dataset_lists_jpg_and_getitem_keeps_it_witness:
  "\<not> has_magic ''dataset'' \<and>
   image_paths example_dataset = [''dataset/xy_075_050_a.jpg'', ''dataset/xy_025_067_c.jpg''] \<and>
   len example_dataset = 2 \<and>
   len (accesses [(example_access 0.3 example_rgb, 0), (example_access 0.7 example_gray, 1)]
          example_dataset) = 2"
proof -
  have h: "\<not> has_magic ''dataset''" by (simp add: has_magic_def)
  note t = dataset_lists_jpg_and_getitem_keeps_it[OF example_dataset_def,
      of "example_access 0.3 example_rgb" example_dataset 0
         "[(example_access 0.3 example_rgb, 0), (example_access 0.7 example_gray, 1)]"]
  have "len (accesses [(example_access 0.3 example_rgb, 0), (example_access 0.7 example_gray, 1)]
          example_dataset) = len example_dataset"
    by (rule t[THEN conjunct2, THEN conjunct2, THEN conjunct2, THEN conjunct2])
  moreover have "len example_dataset = 2" by (simp add: len_def example_paths)
  ultimately show ?thesis using h example_paths by simp
qed

text \<open>
  A directory name with wildcards is itself a pattern: for \<^verbatim>\<open>data[1]\<close> the dataset lists
  \<^verbatim>\<open>data1/q.jpg\<close>, a file of another directory, and not \<^verbatim>\<open>r.jpg\<close> of the directory named.
\<close>

theorem dataset_lists_other_directory:
  "has_magic ''data[1]'' \<and>
   listdir example_fs_brackets ''data[1]'' = Some [''r.jpg''] \<and>
   image_paths (XYDataset_init example_fs_brackets ''data[1]'' False) = [''data1/q.jpg'']"
  by (simp add: XYDataset_init_def glob_jpg_def os_path_join_def
      os_path_split_def basename_def starts_with_def ends_with_def has_magic_def glob1_def
      example_fs_brackets_def ishidden_def fnmatch_jpg_def rstrip_slash_def Let_def)

subsection \<open>The split\<close>

lemma int_of_float_tenth: "int_of_float (test_percent * real n) = int (n div 10)"
proof -
  have "test_percent * real n = real n / real 10" by (simp add: test_percent_def)
  then have "\<lfloor>test_percent * real n\<rfloor> = int (n div 10)"
    by (simp only: floor_divide_of_nat_eq)
  then show ?thesis by (simp add: int_of_float_def test_percent_def)
qed

lemma num_test_eq: "num_test ds = len ds div 10"
  by (simp add: num_test_def int_of_float_tenth)

lemma double_tenth_eq: "double_tenth = 1 / 10 + 1 / (5 * 2 ^ 55)"
  by (simp add: double_tenth_def)

text \<open>
  Below \<open>2 ^ 50\<close> samples the product computed in doubles truncates to the same integer as
  the exact one.
\<close>

lemma num_test_double:
  assumes fl: "double_rounding fl" and n: "n < 2 ^ 50"
  shows "int_of_float (fl (double_tenth * real n)) = int (n div 10)"
proof (cases "n = 0")
  case True
  have "fl (real_of_int 0) = real_of_int 0"
    using fl unfolding double_rounding_def by (metis abs_zero zero_le_numeral zero_le_power)
  then show ?thesis using True by (simp add: int_of_float_def)
next
  case False
  let ?x = "double_tenth * real n"
  let ?q = "n div 10"
  have n_real: "real n < 2 ^ 50" using n by (metis of_nat_less_iff of_nat_numeral of_nat_power)
  have n1: "1 \<le> real n" using False by simp
  have split: "real n = 10 * real ?q + real (n mod 10)"
    by (metis mult_div_mod_eq of_nat_add of_nat_mult of_nat_numeral)
  have m9: "real (n mod 10) \<le> 9"
  proof -
    have "n mod 10 \<le> 9" by simp
    then have "real (n mod 10) \<le> real 9" by (simp only: of_nat_le_iff)
    then show ?thesis by simp
  qed
  have x_eq: "?x = real n / 10 + real n / (5 * 2 ^ 55)"
    by (simp add: double_tenth_eq field_simps)
  have lower: "real ?q \<le> ?x"
    using split x_eq by (simp add: field_simps)
  have upper: "?x \<le> real ?q + 9 / 10 + 1 / 160"
  proof -
    have "real n / 10 \<le> real ?q + 9 / 10" using split m9 by simp
    moreover have "real n / (5 * 2 ^ 55) \<le> 1 / 160" using n_real by simp
    ultimately show ?thesis unfolding x_eq by linarith
  qed
  have x_small: "?x \<le> 2 ^ 47"
  proof -
    have "?x \<le> real n / 8" using n1 by (simp add: double_tenth_def)
    also have "\<dots> \<le> 2 ^ 47" using n_real by simp
    finally show ?thesis .
  qed
  have x_big: "1 / 16 \<le> ?x" using n1 by (simp add: double_tenth_def)
  have q_int: "fl (real ?q) = real ?q"
  proof -
    have "\<bar>int ?q\<bar> \<le> 2 ^ 53" using n by simp
    with fl have "fl (real_of_int (int ?q)) = real_of_int (int ?q)"
      unfolding double_rounding_def by blast
    then show ?thesis by simp
  qed
  have ge: "real ?q \<le> fl ?x"
    using fl lower q_int unfolding double_rounding_def by metis
  have range: "1 / 2 ^ 1022 \<le> ?x \<and> ?x \<le> 2 ^ 1023"
  proof
    have "(1::real) / 2 ^ 1022 \<le> 1 / 16" by simp
    with x_big show "1 / 2 ^ 1022 \<le> ?x" by linarith
    have "(2::real) ^ 47 \<le> 2 ^ 1023" by (rule power_increasing) simp_all
    with x_small show "?x \<le> 2 ^ 1023" by linarith
  qed
  with fl have "fl ?x \<le> ?x * (1 + 1 / 2 ^ 53)"
    unfolding double_rounding_def by blast
  also have "\<dots> = ?x + ?x / 2 ^ 53" by (simp add: field_simps)
  also have "\<dots> \<le> ?x + 1 / 64" using x_small by simp
  also have "\<dots> < real ?q + 1" using upper by simp
  finally have lt: "fl ?x < real ?q + 1" .
  have "\<lfloor>fl ?x\<rfloor> = int ?q"
    using ge lt by (simp add: floor_eq_iff)
  moreover have "0 \<le> fl ?x" using ge by (meson of_nat_0_le_iff order_trans)
  ultimately show ?thesis by (simp add: int_of_float_def)
qed

lemma num_test_le: "num_test ds \<le> len ds"
  by (simp add: num_test_eq)

lemma split_dataset_eq:
  "split_dataset perm ds =
     Inr (take (len ds - num_test ds) perm, take (num_test ds) (drop (len ds - num_test ds) perm))"
  using num_test_le[of ds] by (simp add: split_dataset_def random_split_def)

text \<open>
  C3. For a dataset of size \<open>N\<close> and any permutation of its indices drawn by
  \<^verbatim>\<open>random_split\<close>, the split succeeds, the test subset has \<open>floor(0.1 * N)\<close> indices and the
  train subset the remaining \<open>N - floor(0.1 * N)\<close>, and the two subsets partition the indices
  \<open>0..<N\<close>: together they hold each index exactly once.
\<close>

theorem split_sizes_and_partition:
  assumes "mset perm = mset [0..<len ds]"
  shows "\<exists>train_dataset test_dataset.
           split_dataset perm ds = Inr (train_dataset, test_dataset) \<and>
           int (length test_dataset) = \<lfloor>test_percent * real (len ds)\<rfloor> \<and>
           length train_dataset = len ds - length test_dataset \<and>
           mset train_dataset + mset test_dataset = mset [0..<len ds] \<and>
           set train_dataset \<union> set test_dataset = {0..<len ds} \<and>
           set train_dataset \<inter> set test_dataset = {} \<and>
           distinct train_dataset \<and> distinct test_dataset"
proof -
  let ?k = "len ds - num_test ds"
  let ?train = "take ?k perm" and ?test = "take (num_test ds) (drop ?k perm)"
  have len_perm: "length perm = len ds"
    using assms by (metis length_upt mset_eq_length minus_nat.diff_0)
  have test: "?test = drop ?k perm"
    using len_perm num_test_le[of ds] by simp
  have app: "?train @ ?test = perm" unfolding test by simp
  have d: "distinct perm"
    using assms by (metis distinct_upt mset_eq_imp_distinct_iff)
  have s: "set perm = {0..<len ds}"
    using assms by (metis mset_eq_setD set_upt)
  have dd: "distinct (?train @ ?test)" using d app by simp
  have 1: "int (length ?test) = \<lfloor>test_percent * real (len ds)\<rfloor>"
    using len_perm num_test_le[of ds] int_of_float_tenth[of "len ds"]
    by (simp add: num_test_eq int_of_float_def test_percent_def)
  have 2: "length ?train = len ds - length ?test"
    using len_perm num_test_le[of ds] by simp
  have 3: "mset ?train + mset ?test = mset [0..<len ds]"
    using assms app by (metis mset_append)
  have 4: "set ?train \<union> set ?test = {0..<len ds}"
    using s app by (metis set_append)
  have 5: "set ?train \<inter> set ?test = {}" "distinct ?train" "distinct ?test"
    using dd by (simp_all only: distinct_append) 
  from split_dataset_eq[of perm ds] 1 2 3 4 5 show ?thesis by blast
qed

theorem split_sizes_and_partition_witness:
  "len example_many = 25 \<and>
   split_dataset (rev [0..<len example_many]) example_many = Inr (rev [2..<25], [1, 0])"
proof -
  have l: "len example_many = 25" by (simp add: len_def example_many_def)
  have h: "mset (rev [0..<len example_many]) = mset [0..<len example_many]" by simp
  from split_sizes_and_partition[OF h] obtain tr te where
    s: "split_dataset (rev [0..<len example_many]) example_many = Inr (tr, te)"
      and n: "int (length te) = \<lfloor>test_percent * real (len example_many)\<rfloor>"
    by blast
  have "split_dataset (rev [0..<25]) example_many = Inr (rev [2..<25], [1, 0])"
    by code_simp
  with l s n show ?thesis by simp
qed

subsection \<open>The training loop\<close>

lemma fless_Num_iff: "fless v (Num b) \<longleftrightarrow> (\<exists>x. v = Num x \<and> x < b)"
  by (cases v) simp_all

lemma fless_NaN [simp]: "\<not> fless v NaN" "\<not> fless NaN v"
  by (cases v; simp)+

lemma fless_irrefl [simp]: "\<not> fless v v"
  by (cases v) simp_all

lemma fless_trans: "fless u v \<Longrightarrow> fless v w \<Longrightarrow> fless u w"
  by (cases u; cases v; cases w) simp_all

text \<open>Below the smaller of two numbers is below both.\<close>

lemma fless_min:
  assumes "b \<noteq> NaN"
  shows "fless v (if fless l b then l else b) \<longleftrightarrow> fless v b \<and> (l = NaN \<or> fless v l)"
  using assms by (cases v; cases l; cases b) auto

lemma epoch_body_raised: "raised st \<noteq> None \<Longrightarrow> epoch_body env e st = st"
  by (simp add: epoch_body_def)

lemma epoch_body_cases:
  assumes "raised st = None"
  shows "(raised (epoch_body env e st) \<noteq> None \<and>
          printed (epoch_body env e st) = printed st \<and>
          checkpoint (epoch_body env e st) = checkpoint st \<and>
          saved_epochs (epoch_body env e st) = saved_epochs st \<and>
          best_loss (epoch_body env e st) = best_loss st) \<or>
         (\<exists>tr l. raised (epoch_body env e st) = None \<and>
            printed (epoch_body env e st) = printed st @ [(e, tr, l)] \<and>
            (if fless l (best_loss st)
             then checkpoint (epoch_body env e st) = Some (state_dict env (model (epoch_body env e st))) \<and>
                  saved_epochs (epoch_body env e st) = saved_epochs st @ [e] \<and>
                  best_loss (epoch_body env e st) = l
             else checkpoint (epoch_body env e st) = checkpoint st \<and>
                  saved_epochs (epoch_body env e st) = saved_epochs st \<and>
                  best_loss (epoch_body env e st) = best_loss st))"
  using assms
  by (auto simp: epoch_body_def Let_def split: prod.splits sum.splits option.splits)

lemma test_loss_of_append:
  assumes "printed st' = printed st @ [(e, tr, l)]"
  shows "test_loss_of st' (length (printed st)) = l"
    and "j < length (printed st) \<Longrightarrow> test_loss_of st' j = test_loss_of st j"
  using assms by (simp_all add: test_loss_of_def nth_append)

lemma loop_invariant_initial: "loop_invariant env m file 0 (initial_training m file)"
  by (simp add: loop_invariant_def initial_training_def)

lemma loop_invariant_step:
  assumes inv: "loop_invariant env m file n st"
    and st: "st = training_epochs env n (initial_training m file)"
  shows "loop_invariant env m file (Suc n) (epoch_body env n st)"
proof (cases "raised st = None")
  case False
  then have "epoch_body env n st = st" by (simp add: epoch_body_raised)
  with inv False show ?thesis by (auto simp: loop_invariant_def)
next
  case True
  let ?st' = "epoch_body env n st"
  from inv True have len: "length (printed st) = n" by (simp add: loop_invariant_def)
  from inv have idx: "\<forall>j<length (printed st). fst (printed st ! j) = j"
    by (simp add: loop_invariant_def)
  from inv have num: "best_loss st \<noteq> NaN" by (simp add: loop_invariant_def)
  have below: "\<And>v. fless v (best_loss st) \<longleftrightarrow>
      fless v (Num 1000000000) \<and> (\<forall>j<n. test_loss_of st j = NaN \<or> fless v (test_loss_of st j))"
    using inv len by (simp add: loop_invariant_def)
  have saved: "\<And>e. e \<in> set (saved_epochs st) \<longleftrightarrow>
      e < n \<and> fless (test_loss_of st e) (Num 1000000000) \<and>
      (\<forall>j<e. test_loss_of st j = NaN \<or> fless (test_loss_of st e) (test_loss_of st j))"
    using inv len by (simp add: loop_invariant_def)
  have ckpt: "(saved_epochs st = [] \<and> checkpoint st = file \<and> best_loss st = Num 1000000000) \<or>
    (\<exists>e\<in>set (saved_epochs st).
       checkpoint st =
         Some (state_dict env (model (training_epochs env (Suc e) (initial_training m file)))) \<and>
       best_loss st = test_loss_of st e)"
    using inv by (simp add: loop_invariant_def)
  from epoch_body_cases[OF True, of env n]
  consider (abort) "raised ?st' \<noteq> None" "printed ?st' = printed st"
      "checkpoint ?st' = checkpoint st" "saved_epochs ?st' = saved_epochs st"
      "best_loss ?st' = best_loss st"
    | (save) tr l where "raised ?st' = None" "printed ?st' = printed st @ [(n, tr, l)]"
      "fless l (best_loss st)" "checkpoint ?st' = Some (state_dict env (model ?st'))"
      "saved_epochs ?st' = saved_epochs st @ [n]" "best_loss ?st' = l"
    | (keep) tr l where "raised ?st' = None" "printed ?st' = printed st @ [(n, tr, l)]"
      "\<not> fless l (best_loss st)" "checkpoint ?st' = checkpoint st"
      "saved_epochs ?st' = saved_epochs st" "best_loss ?st' = best_loss st"
    by (auto split: if_splits)
  then show ?thesis
  proof cases
    case abort
    have "test_loss_of ?st' = test_loss_of st"
      using abort(2) by (simp add: test_loss_of_def fun_eq_iff)
    with inv abort len show ?thesis
      by (simp add: loop_invariant_def)
  next
    case save
    have new: "test_loss_of ?st' n = l"
      using test_loss_of_append(1)[OF save(2)] len by simp
    have old: "\<And>j. j < n \<Longrightarrow> test_loss_of ?st' j = test_loss_of st j"
      using test_loss_of_append(2)[OF save(2)] len by simp
    have l_num: "l \<noteq> NaN" using save(3) by auto
    have 1: "length (printed ?st') = Suc n" using save(2) len by simp
    have 0: "\<forall>j<length (printed ?st'). fst (printed ?st' ! j) = j"
      using idx save(2) len by (auto simp: nth_append less_Suc_eq)
    have best: "best_loss ?st' = (if fless l (best_loss st) then l else best_loss st)"
      using save(3,6) by simp
    have 2: "\<And>v. fless v (best_loss ?st') \<longleftrightarrow>
        fless v (Num 1000000000) \<and>
        (\<forall>j<Suc n. test_loss_of ?st' j = NaN \<or> fless v (test_loss_of ?st' j))"
      unfolding best fless_min[OF num] using below new old by (auto simp: less_Suc_eq)
    have 3: "\<And>e. e \<in> set (saved_epochs ?st') \<longleftrightarrow>
        e < Suc n \<and> fless (test_loss_of ?st' e) (Num 1000000000) \<and>
        (\<forall>j<e. test_loss_of ?st' j = NaN \<or> fless (test_loss_of ?st' e) (test_loss_of ?st' j))"
      using saved below[of l] save(3,5) new old by (auto simp: less_Suc_eq)
    have 4: "checkpoint ?st' =
        Some (state_dict env (model (training_epochs env (Suc n) (initial_training m file))))"
      using save(4) st by simp
    have 5: "n \<in> set (saved_epochs ?st')" using save(5) by simp
    have 6: "best_loss ?st' \<noteq> NaN" using save(6) l_num by simp
    have 7: "\<exists>e\<in>set (saved_epochs ?st').
         checkpoint ?st' =
           Some (state_dict env (model (training_epochs env (Suc e) (initial_training m file)))) \<and>
         best_loss ?st' = test_loss_of ?st' e"
      using 4 5 save(6) new by (intro bexI[of _ n]) simp_all
    show ?thesis
      unfolding loop_invariant_def 1 using 0 1 2 3 6 7 save(1) by simp
  next
    case keep
    have new: "test_loss_of ?st' n = l"
      using test_loss_of_append(1)[OF keep(2)] len by simp
    have old: "\<And>j. j < n \<Longrightarrow> test_loss_of ?st' j = test_loss_of st j"
      using test_loss_of_append(2)[OF keep(2)] len by simp
    have 1: "length (printed ?st') = Suc n" using keep(2) len by simp
    have 0: "\<forall>j<length (printed ?st'). fst (printed ?st' ! j) = j"
      using idx keep(2) len by (auto simp: nth_append less_Suc_eq)
    have best: "best_loss ?st' = (if fless l (best_loss st) then l else best_loss st)"
      using keep(3,6) by simp
    have 2: "\<And>v. fless v (best_loss ?st') \<longleftrightarrow>
        fless v (Num 1000000000) \<and>
        (\<forall>j<Suc n. test_loss_of ?st' j = NaN \<or> fless v (test_loss_of ?st' j))"
      unfolding best fless_min[OF num] using below new old by (auto simp: less_Suc_eq)
    have 3: "\<And>e. e \<in> set (saved_epochs ?st') \<longleftrightarrow>
        e < Suc n \<and> fless (test_loss_of ?st' e) (Num 1000000000) \<and>
        (\<forall>j<e. test_loss_of ?st' j = NaN \<or> fless (test_loss_of ?st' e) (test_loss_of ?st' j))"
      using saved below[of l] keep(3,5) new old by (auto simp: less_Suc_eq)
    have 4: "(saved_epochs ?st' = [] \<and> checkpoint ?st' = file \<and> best_loss ?st' = Num 1000000000) \<or>
      (\<exists>e\<in>set (saved_epochs ?st').
         checkpoint ?st' =
           Some (state_dict env (model (training_epochs env (Suc e) (initial_training m file)))) \<and>
         best_loss ?st' = test_loss_of ?st' e)"
      using ckpt keep(4,5,6) saved old by auto
    have 6: "best_loss ?st' \<noteq> NaN" using keep(6) num by simp
    show ?thesis
      unfolding loop_invariant_def 1 using 0 1 2 3 4 6 keep(1) by simp
  qed
qed

lemma loop_invariant_holds:
  "loop_invariant env m file n (training_epochs env n (initial_training m file))"
proof (induction n)
  case 0
  show ?case by (simp add: loop_invariant_initial)
next
  case (Suc n)
  from loop_invariant_step[OF Suc refl] show ?case by simp
qed

lemma epoch_body_no_raise:
  assumes "raised st = None" "delivers (train_loader env e)" "delivers (test_loader env e)"
  shows "raised (epoch_body env e st) = None"
  using assms by (auto simp: epoch_body_def truediv_def delivers_def Let_def split: prod.splits)

lemma training_epochs_no_raise:
  assumes "\<forall>e<n. delivers (train_loader env e) \<and> delivers (test_loader env e)"
  shows "raised (training_epochs env n (initial_training m file)) = None"
  using assms
proof (induction n)
  case 0
  show ?case by (simp add: initial_training_def)
next
  case (Suc n)
  then show ?case by (simp add: epoch_body_no_raise)
qed

text \<open>No test loss so far is below \<open>best_loss\<close>.\<close>

lemma best_loss_is_minimum:
  assumes inv: "loop_invariant env m file n st"
    and j: "j < length (printed st)"
  shows "\<not> fless (test_loss_of st j) (best_loss st)"
proof
  assume "fless (test_loss_of st j) (best_loss st)"
  with inv have "\<forall>i<length (printed st).
      test_loss_of st i = NaN \<or> fless (test_loss_of st j) (test_loss_of st i)"
    by (simp add: loop_invariant_def)
  with j have "test_loss_of st j = NaN" by auto
  with \<open>fless (test_loss_of st j) (best_loss st)\<close> show False by simp
qed

lemma trainer_above_sentinel_run:
  "printed (training_epochs trainer_above_sentinel 2 (initial_training 0 None)) =
     [(0, Num 1, Num 2000000000), (1, Num 1, Num 2000000000)]"
  by code_simp

lemma trainer_best_in_middle_run:
  "printed (training_epochs trainer_best_in_middle 3 (initial_training 0 None)) =
     [(0, Num 1, Num 2), (1, Num 1, Num 0), (2, Num 1, Num 2)]"
  by code_simp

lemma trainer_with_nan_run:
  "printed (training_epochs trainer_with_nan 3 (initial_training 0 None)) =
     [(0, Num 1, Num (1 / 2)), (1, Num 1, NaN), (2, Num 1, Num (2 / 5))]"
  by code_simp

text \<open>
  C10. After any number of iterations, no epoch whose test loss is not below 1000000000
  (it is that large or larger, or NaN) has saved a checkpoint, the first epoch included;
  when no test loss is below 1000000000, the loop has saved nothing and the file is as it
  was before the run. When both loaders deliver in every epoch, the loop raises nothing and
  runs all its iterations.
\<close>

theorem no_save_at_or_above_sentinel:
  assumes "st = training_epochs env n (initial_training m file)"
  shows "(\<forall>e<length (printed st).
            \<not> fless (test_loss_of st e) (Num 1000000000) \<longrightarrow> e \<notin> set (saved_epochs st)) \<and>
         ((\<forall>e<length (printed st). \<not> fless (test_loss_of st e) (Num 1000000000)) \<longrightarrow>
            saved_epochs st = [] \<and> checkpoint st = file) \<and>
         ((\<forall>e<n. delivers (train_loader env e) \<and> delivers (test_loader env e)) \<longrightarrow>
            raised st = None \<and> length (printed st) = n)"
proof -
  have inv: "loop_invariant env m file n st"
    unfolding assms by (rule loop_invariant_holds)
  have a: "\<forall>e<length (printed st).
      \<not> fless (test_loss_of st e) (Num 1000000000) \<longrightarrow> e \<notin> set (saved_epochs st)"
    using inv by (auto simp: loop_invariant_def)
  have b: "saved_epochs st = [] \<and> checkpoint st = file"
    if "\<forall>e<length (printed st). \<not> fless (test_loss_of st e) (Num 1000000000)"
  proof -
    have "set (saved_epochs st) = {}"
      using inv that by (fastforce simp: loop_invariant_def)
    then have "saved_epochs st = []" by simp
    with inv show ?thesis by (auto simp: loop_invariant_def)
  qed
  have c: "raised st = None \<and> length (printed st) = n"
    if "\<forall>e<n. delivers (train_loader env e) \<and> delivers (test_loader env e)"
  proof -
    have "raised st = None" unfolding assms using that by (rule training_epochs_no_raise)
    with inv show ?thesis by (simp add: loop_invariant_def)
  qed
  from a b c show ?thesis by blast
qed

theorem no_save_at_or_above_sentinel_witness:
  "saved_epochs (training_epochs trainer_above_sentinel 2 (initial_training 0 None)) = [] \<and>
   checkpoint (training_epochs trainer_above_sentinel 2 (initial_training 0 None)) = None \<and>
   raised (training_epochs trainer_above_sentinel 2 (initial_training 0 None)) = None \<and>
   length (printed (training_epochs trainer_above_sentinel 2 (initial_training 0 None))) = 2"
proof -
  let ?st = "training_epochs trainer_above_sentinel 2 (initial_training 0 None)"
  have h1: "\<forall>e<length (printed ?st). \<not> fless (test_loss_of ?st e) (Num 1000000000)"
    unfolding trainer_above_sentinel_run test_loss_of_def by (simp add: less_Suc_eq eval_nat_numeral)
  have h2: "\<forall>e<2. delivers (train_loader trainer_above_sentinel e) \<and> delivers (test_loader trainer_above_sentinel e)"
    by (simp add: trainer_above_sentinel_def delivers_def)
  from no_save_at_or_above_sentinel[OF refl, of trainer_above_sentinel 2 0 None] h1 h2
  show ?thesis by blast
qed

text \<open>
  C2. For every epoch that ran to its end, the checkpoint is written in that epoch if and
  only if its test loss is below 1000000000, the initial value of \<open>best_loss\<close>, and below the
  test loss of every earlier epoch whose test loss is a number; an earlier loss that is NaN
  is passed over.
\<close>

theorem save_iff_below_sentinel_and_prior:
  assumes "st = training_epochs env n (initial_training m file)"
    and "e < length (printed st)"
  shows "fst (printed st ! e) = e \<and>
         (e \<in> set (saved_epochs st) \<longleftrightarrow>
            fless (test_loss_of st e) (Num 1000000000) \<and>
            (\<forall>j<e. test_loss_of st j = NaN \<or> fless (test_loss_of st e) (test_loss_of st j)))"
proof -
  have inv: "loop_invariant env m file n st"
    unfolding assms(1) by (rule loop_invariant_holds)
  then show ?thesis using assms(2) by (simp add: loop_invariant_def)
qed

theorem save_iff_below_sentinel_and_prior_witness:
  "test_loss_of (training_epochs trainer_with_nan 3 (initial_training 0 None)) 1 = NaN \<and>
   0 \<in> set (saved_epochs (training_epochs trainer_with_nan 3 (initial_training 0 None))) \<and>
   1 \<notin> set (saved_epochs (training_epochs trainer_with_nan 3 (initial_training 0 None))) \<and>
   2 \<in> set (saved_epochs (training_epochs trainer_with_nan 3 (initial_training 0 None)))"
proof -
  let ?st = "training_epochs trainer_with_nan 3 (initial_training 0 None)"
  have l: "(0::nat) < length (printed ?st)" "(1::nat) < length (printed ?st)"
      "(2::nat) < length (printed ?st)"
    by (simp_all add: trainer_with_nan_run)
  have t: "test_loss_of ?st 0 = Num (1 / 2)" "test_loss_of ?st 1 = NaN"
      "test_loss_of ?st 2 = Num (2 / 5)"
    by (simp_all add: trainer_with_nan_run test_loss_of_def)
  from save_iff_below_sentinel_and_prior[OF refl l(1)]
  have "0 \<in> set (saved_epochs ?st)" using t by simp
  moreover from save_iff_below_sentinel_and_prior[OF refl l(2)]
  have "1 \<notin> set (saved_epochs ?st)" using t by simp
  moreover from save_iff_below_sentinel_and_prior[OF refl l(3)]
  have "2 \<in> set (saved_epochs ?st)" using t by (simp add: less_Suc_eq eval_nat_numeral)
  ultimately show ?thesis using t by simp
qed

text \<open>
  The sentinel is finite: a first epoch with test loss 2000000000 writes nothing, though no
  earlier epoch has a smaller loss. And NaN is passed over: after the test losses 1/2 and
  NaN, the epoch with test loss 2/5 writes, though 2/5 is not less than NaN.
\<close>

theorem first_epoch_not_saved:
  "length (printed (training_loop trainer_above_sentinel 0 None)) = 50 \<and>
   raised (training_loop trainer_above_sentinel 0 None) = None \<and>
   test_loss_of (training_loop trainer_above_sentinel 0 None) 0 = Num 2000000000 \<and>
   0 \<notin> set (saved_epochs (training_loop trainer_above_sentinel 0 None)) \<and>
   test_loss_of (training_loop trainer_with_nan 0 None) 0 = Num (1 / 2) \<and>
   test_loss_of (training_loop trainer_with_nan 0 None) 1 = NaN \<and>
   test_loss_of (training_loop trainer_with_nan 0 None) 2 = Num (2 / 5) \<and>
   \<not> fless (test_loss_of (training_loop trainer_with_nan 0 None) 2)
       (test_loss_of (training_loop trainer_with_nan 0 None) 1) \<and>
   2 \<in> set (saved_epochs (training_loop trainer_with_nan 0 None))"
  by code_simp

text \<open>
  C7. When some epoch so far has a test loss below 1000000000, the checkpoint file holds
  the parameters of the model as they were at the end of the earliest epoch with the least
  test loss so far (a number: no test loss is below it, and every earlier one that is a
  number is above it); this holds after every iteration, and so after the last.
\<close>

theorem checkpoint_holds_best_epoch:
  assumes "st = training_epochs env n (initial_training m file)"
    and "\<exists>e<length (printed st). fless (test_loss_of st e) (Num 1000000000)"
  shows "\<exists>k<length (printed st).
           checkpoint st =
             Some (state_dict env (model (training_epochs env (Suc k) (initial_training m file)))) \<and>
           test_loss_of st k \<noteq> NaN \<and>
           (\<forall>j<length (printed st). \<not> fless (test_loss_of st j) (test_loss_of st k)) \<and>
           (\<forall>j<k. test_loss_of st j = NaN \<or> fless (test_loss_of st k) (test_loss_of st j))"
proof -
  have inv: "loop_invariant env m file n st"
    unfolding assms(1) by (rule loop_invariant_holds)
  from assms(2) obtain e where e: "e < length (printed st)"
      "fless (test_loss_of st e) (Num 1000000000)"
    by blast
  have "best_loss st \<noteq> Num 1000000000"
  proof
    assume "best_loss st = Num 1000000000"
    with e(2) best_loss_is_minimum[OF inv e(1)] show False by simp
  qed
  with inv obtain k where k: "k \<in> set (saved_epochs st)"
      "checkpoint st =
         Some (state_dict env (model (training_epochs env (Suc k) (initial_training m file))))"
      "best_loss st = test_loss_of st k"
    by (auto simp: loop_invariant_def)
  from inv k(1) have k': "k < length (printed st)"
      "\<forall>j<k. test_loss_of st j = NaN \<or> fless (test_loss_of st k) (test_loss_of st j)"
    by (simp_all add: loop_invariant_def)
  from inv k(3) have num: "test_loss_of st k \<noteq> NaN" by (simp add: loop_invariant_def)
  have "\<forall>j<length (printed st). \<not> fless (test_loss_of st j) (test_loss_of st k)"
    using best_loss_is_minimum[OF inv] k(3) by simp
  with k(2) k' num show ?thesis by blast
qed

theorem checkpoint_holds_best_epoch_witness:
  "fless (test_loss_of (training_epochs trainer_best_in_middle 3 (initial_training 0 None)) 1)
     (Num 1000000000) \<and>
   model (training_epochs trainer_best_in_middle 3 (initial_training 0 None)) = 6 \<and>
   checkpoint (training_epochs trainer_best_in_middle 3 (initial_training 0 None)) = Some 4"
proof -
  let ?st = "training_epochs trainer_best_in_middle 3 (initial_training 0 None)"
  have t: "test_loss_of ?st 0 = Num 2" "test_loss_of ?st 1 = Num 0" "test_loss_of ?st 2 = Num 2"
    by (simp_all add: trainer_best_in_middle_run test_loss_of_def)
  have len: "length (printed ?st) = 3" by (simp add: trainer_best_in_middle_run)
  have h: "\<exists>e<length (printed ?st). fless (test_loss_of ?st e) (Num 1000000000)"
    using t(2) len by (intro exI[of _ 1]) simp
  from checkpoint_holds_best_epoch[OF refl h] obtain k where
    k: "k < 3" "checkpoint ?st =
          Some (state_dict trainer_best_in_middle
                 (model (training_epochs trainer_best_in_middle (Suc k) (initial_training 0 None))))"
      "\<forall>j<3. \<not> fless (test_loss_of ?st j) (test_loss_of ?st k)"
    unfolding len by blast
  have "k = 1"
  proof -
    from k(3) have "\<not> fless (test_loss_of ?st 1) (test_loss_of ?st k)" by simp
    with t k(1) show ?thesis by (auto simp: less_Suc_eq eval_nat_numeral)
  qed
  moreover have "state_dict trainer_best_in_middle
      (model (training_epochs trainer_best_in_middle 2 (initial_training 0 None))) = 4"
    by code_simp
  moreover have "model ?st = 6" by code_simp
  ultimately show ?thesis using k(2) t(2) by (simp add: eval_nat_numeral)
qed

text \<open>
  Without such an epoch there is no file: after all 50 epochs with test loss 2000000000 the
  checkpoint is still absent.
\<close>

theorem checkpoint_absent_after_loop:
  "length (printed (training_loop trainer_above_sentinel 0 (None :: int option))) = 50 \<and>
   raised (training_loop trainer_above_sentinel 0 (None :: int option)) = None \<and>
   checkpoint (training_loop trainer_above_sentinel 0 (None :: int option)) = None"
  by code_simp

end
